theory Spec2Isabelle
  imports Main
begin

section \<open>Status codes, requests and responses\<close>

text \<open>
  The gRPC status codes the service returns. A handler's error is
  \<open>status.Error(code, message)\<close>: a code with its message.
\<close>

datatype code = InvalidArgument | Unauthenticated | PermissionDenied | Internal

type_synonym status = "code \<times> string"

text \<open>The protobuf messages, with the fields the handlers read and write.\<close>

record GetTokenRequest =
  ApiKey :: string

record AuthTokenResponse =
  Token :: string
  ExpiresInSeconds :: int

record ValidateRequest =
  vr_LicenseKey :: string
  vr_ProductId :: string
  vr_Hwid :: string

record ValidateResponse =
  Valid :: bool
  Message :: string

record UpdateLicenseRequest =
  ur_LicenseKey :: string
  ur_ProductId :: string
  ur_IsActive :: bool

record DeleteLicenseRequest =
  dr_LicenseKey :: string

text \<open>
  The incoming context: \<open>metadata.FromIncomingContext\<close> yields the metadata or reports
  that there is none. \<open>md.Get\<close> returns the values stored under a header, the empty slice
  when the header is absent.
\<close>

type_synonym metadata = "(string \<times> string list) list"

definition md_Get :: "metadata \<Rightarrow> string \<Rightarrow> string list" where
  "md_Get md k = (case map_of md k of None \<Rightarrow> [] | Some vs \<Rightarrow> vs)"

section \<open>The store\<close>

text \<open>
  The three tables behind the \<open>*sql.DB\<close> handle. Times are store times in seconds.
  \<open>hwid\<close> is a nullable column (read into a \<open>sql.NullString\<close>).
\<close>

record api_key_row =
  key :: string
  key_expires_at :: "nat option"

record access_token_row =
  token :: string
  created_at :: nat
  expires_at :: nat

record license_row =
  license_key :: string
  product_id :: string
  is_active :: bool
  hwid :: "string option"

text \<open>
  The SQL statements of the service, with their parameters:
  \<^item> \<open>SweepExpired\<close>: \<open>DELETE FROM access_tokens WHERE expires_at < NOW()\<close>
  \<^item> \<open>ApiKeyExists k\<close>: \<open>SELECT EXISTS(SELECT 1 FROM api_keys WHERE key = $1 AND
     (expires_at IS NULL OR expires_at > NOW()))\<close>
  \<^item> \<open>InsertToken\<close>: \<open>INSERT INTO access_tokens DEFAULT VALUES RETURNING token\<close>
  \<^item> \<open>BurnToken t\<close>: \<open>DELETE FROM access_tokens WHERE token = $1 AND expires_at > NOW()\<close>
  \<^item> \<open>SelectLicense k p\<close>: \<open>SELECT is_active, hwid FROM licenses WHERE license_key = $1
     AND product_id = $2\<close>
  \<^item> \<open>SetHwid h k\<close>: \<open>UPDATE licenses SET hwid = $1 WHERE license_key = $2\<close>
  \<^item> \<open>UpsertLicense k p a\<close>: \<open>INSERT INTO licenses (license_key, product_id, is_active)
     VALUES ($1, $2, $3) ON CONFLICT (license_key) DO UPDATE SET product_id = $2,
     is_active = $3\<close>
  \<^item> \<open>DeleteLicenseRow k\<close>: \<open>DELETE FROM licenses WHERE license_key = $1\<close>
\<close>

datatype stmt =
    SweepExpired
  | ApiKeyExists string
  | InsertToken
  | BurnToken string
  | SelectLicense string string
  | SetHwid string string
  | UpsertLicense string string bool
  | DeleteLicenseRow string

text \<open>
  The store: its tables, and the statements it has been sent so far (oldest first).
\<close>

record store =
  api_keys :: "api_key_row list"
  access_tokens :: "access_token_row list"
  licenses :: "license_row list"
  issued :: "stmt list"

text \<open>
  What a call meets and does not control: the store's clock (\<open>NOW()\<close>), whether the store
  fails a statement and with which driver error, the identifier the store generates for
  the next token row, and the process environment.
\<close>

record env =
  now :: nat
  fault :: "stmt \<Rightarrow> string option"
  gen_token :: string
  environ :: "string \<Rightarrow> string option"

text \<open>\<open>os.Getenv\<close>: the value of the variable, empty when it is unset.\<close>

definition os_Getenv :: "env \<Rightarrow> string \<Rightarrow> string" where
  "os_Getenv e k = (case environ e k of None \<Rightarrow> [] | Some v \<Rightarrow> v)"

definition sent :: "stmt \<Rightarrow> store \<Rightarrow> store" where
  "sent q s = s\<lparr>issued := issued s @ [q]\<rparr>"

text \<open>
  Each statement is one function: it returns the driver's error or the statement's
  result, and the store after it. A statement the store fails changes no table.
\<close>

text \<open>The rows \<open>BurnToken t\<close> matches: this token, not yet expired.\<close>

definition live_match :: "env \<Rightarrow> string \<Rightarrow> access_token_row \<Rightarrow> bool" where
  "live_match e t r = (token r = t \<and> now e < expires_at r)"

text \<open>\<open>db.Exec\<close> of \<open>BurnToken t\<close>; the result is \<open>RowsAffected\<close>.\<close>

definition Exec_BurnToken :: "env \<Rightarrow> string \<Rightarrow> store \<Rightarrow> (string + nat) \<times> store" where
  "Exec_BurnToken e t s =
     (case fault e (BurnToken t) of
        Some err \<Rightarrow> (Inl err, sent (BurnToken t) s)
      | None \<Rightarrow>
          (Inr (length (filter (live_match e t) (access_tokens s))),
           sent (BurnToken t)
             (s\<lparr>access_tokens := filter (\<lambda>r. \<not> live_match e t r) (access_tokens s)\<rparr>)))"

text \<open>\<open>db.Exec\<close> of \<open>SweepExpired\<close>.\<close>

definition Exec_SweepExpired :: "env \<Rightarrow> store \<Rightarrow> (string + nat) \<times> store" where
  "Exec_SweepExpired e s =
     (case fault e SweepExpired of
        Some err \<Rightarrow> (Inl err, sent SweepExpired s)
      | None \<Rightarrow>
          (Inr (length (filter (\<lambda>r. expires_at r < now e) (access_tokens s))),
           sent SweepExpired
             (s\<lparr>access_tokens := filter (\<lambda>r. \<not> expires_at r < now e) (access_tokens s)\<rparr>)))"

text \<open>\<open>db.QueryRow\<close> of \<open>ApiKeyExists k\<close>, scanned into a bool.\<close>

definition key_valid :: "env \<Rightarrow> string \<Rightarrow> api_key_row \<Rightarrow> bool" where
  "key_valid e k r =
     (key r = k \<and> (case key_expires_at r of None \<Rightarrow> True | Some x \<Rightarrow> now e < x))"

definition QueryRow_ApiKeyExists :: "env \<Rightarrow> string \<Rightarrow> store \<Rightarrow> (string + bool) \<times> store" where
  "QueryRow_ApiKeyExists e k s =
     (case fault e (ApiKeyExists k) of
        Some err \<Rightarrow> (Inl err, sent (ApiKeyExists k) s)
      | None \<Rightarrow> (Inr (list_ex (key_valid e k) (api_keys s)), sent (ApiKeyExists k) s))"

text \<open>
  Modelled from the spec: the declaration of table \<open>access_tokens\<close> is not in the
  repository. By the spec a new row gets a server-generated unique identifier and expires
  30 seconds after its creation, and \<open>access_tokens.token\<close> is a unique key: the insert of
  an identifier the table already holds is refused by the store.
\<close>

definition new_token_row :: "env \<Rightarrow> access_token_row" where
  "new_token_row e = \<lparr>token = gen_token e, created_at = now e, expires_at = now e + 30\<rparr>"

definition QueryRow_InsertToken :: "env \<Rightarrow> store \<Rightarrow> (string + string) \<times> store" where
  "QueryRow_InsertToken e s =
     (case fault e InsertToken of
        Some err \<Rightarrow> (Inl err, sent InsertToken s)
      | None \<Rightarrow>
          if gen_token e \<in> set (map token (access_tokens s))
          then (Inl ''duplicate key value violates unique constraint'', sent InsertToken s)
          else (Inr (gen_token e),
                sent InsertToken (s\<lparr>access_tokens := access_tokens s @ [new_token_row e]\<rparr>)))"

text \<open>
  \<open>db.QueryRow\<close> of \<open>SelectLicense k p\<close>, scanned into \<open>isActive\<close> and \<open>storedHwid\<close>:
  the first matching row, \<open>None\<close> for \<open>sql.ErrNoRows\<close>.
\<close>

definition QueryRow_SelectLicense ::
  "env \<Rightarrow> string \<Rightarrow> string \<Rightarrow> store \<Rightarrow> (string + (bool \<times> string option) option) \<times> store" where
  "QueryRow_SelectLicense e k p s =
     (case fault e (SelectLicense k p) of
        Some err \<Rightarrow> (Inl err, sent (SelectLicense k p) s)
      | None \<Rightarrow>
          (Inr (map_option (\<lambda>r. (is_active r, hwid r))
                  (find (\<lambda>r. license_key r = k \<and> product_id r = p) (licenses s))),
           sent (SelectLicense k p) s))"

text \<open>\<open>db.Exec\<close> of \<open>SetHwid h k\<close>.\<close>

definition set_hwid :: "string \<Rightarrow> string \<Rightarrow> license_row \<Rightarrow> license_row" where
  "set_hwid h k r = (if license_key r = k then r\<lparr>hwid := Some h\<rparr> else r)"

definition Exec_SetHwid :: "env \<Rightarrow> string \<Rightarrow> string \<Rightarrow> store \<Rightarrow> (string + nat) \<times> store" where
  "Exec_SetHwid e h k s =
     (case fault e (SetHwid h k) of
        Some err \<Rightarrow> (Inl err, sent (SetHwid h k) s)
      | None \<Rightarrow>
          (Inr (length (filter (\<lambda>r. license_key r = k) (licenses s))),
           sent (SetHwid h k) (s\<lparr>licenses := map (set_hwid h k) (licenses s)\<rparr>)))"

text \<open>
  \<open>db.Exec\<close> of \<open>UpsertLicense k p a\<close>. The insert names three columns; \<open>hwid\<close> takes the
  column's default, NULL. On a conflict on \<open>license_key\<close> the row keeps its \<open>hwid\<close>.
\<close>

definition overwrite :: "string \<Rightarrow> string \<Rightarrow> bool \<Rightarrow> license_row \<Rightarrow> license_row" where
  "overwrite k p a r = (if license_key r = k then r\<lparr>product_id := p, is_active := a\<rparr> else r)"

definition upsert_rows :: "string \<Rightarrow> string \<Rightarrow> bool \<Rightarrow> license_row list \<Rightarrow> license_row list" where
  "upsert_rows k p a rows =
     (if list_ex (\<lambda>r. license_key r = k) rows then map (overwrite k p a) rows
      else rows @ [\<lparr>license_key = k, product_id = p, is_active = a, hwid = None\<rparr>])"

definition Exec_UpsertLicense ::
  "env \<Rightarrow> string \<Rightarrow> string \<Rightarrow> bool \<Rightarrow> store \<Rightarrow> (string + nat) \<times> store" where
  "Exec_UpsertLicense e k p a s =
     (case fault e (UpsertLicense k p a) of
        Some err \<Rightarrow> (Inl err, sent (UpsertLicense k p a) s)
      | None \<Rightarrow>
          (Inr 1, sent (UpsertLicense k p a) (s\<lparr>licenses := upsert_rows k p a (licenses s)\<rparr>)))"

text \<open>\<open>db.Exec\<close> of \<open>DeleteLicenseRow k\<close>.\<close>

definition Exec_DeleteLicenseRow :: "env \<Rightarrow> string \<Rightarrow> store \<Rightarrow> (string + nat) \<times> store" where
  "Exec_DeleteLicenseRow e k s =
     (case fault e (DeleteLicenseRow k) of
        Some err \<Rightarrow> (Inl err, sent (DeleteLicenseRow k) s)
      | None \<Rightarrow>
          (Inr (length (filter (\<lambda>r. license_key r = k) (licenses s))),
           sent (DeleteLicenseRow k)
             (s\<lparr>licenses := filter (\<lambda>r. license_key r \<noteq> k) (licenses s)\<rparr>)))"

section \<open>The service (the version that checks the API key)\<close>

text \<open>
  One tick of \<open>cleanupExpiredTokens\<close>: the sweep is sent, its error is only logged.
\<close>

definition cleanupExpiredTokens_tick :: "env \<Rightarrow> store \<Rightarrow> store" where
  "cleanupExpiredTokens_tick e s = snd (Exec_SweepExpired e s)"

text \<open>\<open>checkAdmin\<close>: \<open>None\<close> is the nil error.\<close>

definition checkAdmin :: "env \<Rightarrow> metadata option \<Rightarrow> status option" where
  "checkAdmin e ctx =
     (case ctx of
        None \<Rightarrow> Some (Unauthenticated, ''metadata missing'')
      | Some md \<Rightarrow>
          (case md_Get md ''x-admin-secret'' of
             [] \<Rightarrow> Some (PermissionDenied, ''invalid admin secret'')
           | v # _ \<Rightarrow>
               if v \<noteq> os_Getenv e ''ADMIN_SECRET''
               then Some (PermissionDenied, ''invalid admin secret'')
               else None))"

text \<open>\<open>GetAuthToken\<close>. The handler does not read its context.\<close>

definition GetAuthToken ::
  "env \<Rightarrow> GetTokenRequest \<Rightarrow> store \<Rightarrow> (status + AuthTokenResponse) \<times> store" where
  "GetAuthToken e req s =
     (if ApiKey req = [] then (Inl (InvalidArgument, ''API Key required''), s)
      else
        (case QueryRow_ApiKeyExists e (ApiKey req) s of
           (Inl err, s1) \<Rightarrow> (Inl (Internal, ''DB Check Failed: '' @ err), s1)
         | (Inr exists, s1) \<Rightarrow>
             if \<not> exists then (Inl (Unauthenticated, ''Invalid or Expired API Key''), s1)
             else
               (case QueryRow_InsertToken e s1 of
                  (Inl err, s2) \<Rightarrow> (Inl (Internal, ''failed to generate token: '' @ err), s2)
                | (Inr tok, s2) \<Rightarrow> (Inr \<lparr>Token = tok, ExpiresInSeconds = 30\<rparr>, s2))))"

text \<open>
  The step \<open>Validate & Burn Token\<close> of \<open>ValidateLicense\<close>: the conditional delete and the
  test of its affected-row count.
\<close>

definition burnToken :: "env \<Rightarrow> string \<Rightarrow> store \<Rightarrow> (status + unit) \<times> store" where
  "burnToken e t s =
     (case Exec_BurnToken e t s of
        (Inl err, s1) \<Rightarrow> (Inl (Internal, ''db error: '' @ err), s1)
      | (Inr rowsAffected, s1) \<Rightarrow>
          if rowsAffected = 0
          then (Inl (Unauthenticated, ''invalid or expired access token''), s1)
          else (Inr (), s1))"

text \<open>
  The burn steps of several callers that present the same token at the same time. No
  handler takes a lock and a burn step is one statement, so the store serves the
  statements one after another, in some order: \<open>es\<close> lists the callers in the order the
  store serves them, and the result lists what each caller's burn step returns.
\<close>

fun burn_seq :: "env list \<Rightarrow> string \<Rightarrow> store \<Rightarrow> (status + unit) list \<times> store" where
  "burn_seq [] t s = ([], s)"
| "burn_seq (e # es) t s =
     (case burnToken e t s of
        (r, s1) \<Rightarrow> (case burn_seq es t s1 of (rs, s2) \<Rightarrow> (r # rs, s2)))"

text \<open>
  \<open>ValidateLicense\<close>. The error of the \<open>SetHwid\<close> statement is discarded
  (\<open>_, _ = s.db.Exec(...)\<close>).
\<close>

definition ValidateLicense ::
  "env \<Rightarrow> metadata option \<Rightarrow> ValidateRequest \<Rightarrow> store \<Rightarrow> (status + ValidateResponse) \<times> store" where
  "ValidateLicense e ctx req s =
     (case ctx of
        None \<Rightarrow> (Inl (Unauthenticated, ''no metadata''), s)
      | Some md \<Rightarrow>
          (case md_Get md ''x-access-token'' of
             [] \<Rightarrow> (Inl (Unauthenticated, ''missing x-access-token header''), s)
           | t # _ \<Rightarrow>
               (case burnToken e t s of
                  (Inl err, s1) \<Rightarrow> (Inl err, s1)
                | (Inr _, s1) \<Rightarrow>
                    (case QueryRow_SelectLicense e (vr_LicenseKey req) (vr_ProductId req) s1 of
                       (Inl err, s2) \<Rightarrow> (Inl (Internal, ''db error: '' @ err), s2)
                     | (Inr None, s2) \<Rightarrow>
                         (Inr \<lparr>Valid = False, Message = ''License not found''\<rparr>, s2)
                     | (Inr (Some (isActive, storedHwid)), s2) \<Rightarrow>
                         if \<not> isActive
                         then (Inr \<lparr>Valid = False, Message = ''License is suspended''\<rparr>, s2)
                         else if vr_Hwid req \<noteq> [] then
                           (if storedHwid = None \<or> storedHwid = Some [] then
                              (Inr \<lparr>Valid = True, Message = ''Authenticated''\<rparr>,
                               snd (Exec_SetHwid e (vr_Hwid req) (vr_LicenseKey req) s2))
                            else if storedHwid \<noteq> Some (vr_Hwid req) then
                              (Inr \<lparr>Valid = False, Message = ''HWID mismatch''\<rparr>, s2)
                            else (Inr \<lparr>Valid = True, Message = ''Authenticated''\<rparr>, s2))
                         else (Inr \<lparr>Valid = True, Message = ''Authenticated''\<rparr>, s2)))))"

text \<open>\<open>UpdateLicense\<close> and \<open>DeleteLicense\<close>; \<open>()\<close> is the empty response.\<close>

definition UpdateLicense ::
  "env \<Rightarrow> metadata option \<Rightarrow> UpdateLicenseRequest \<Rightarrow> store \<Rightarrow> (status + unit) \<times> store" where
  "UpdateLicense e ctx req s =
     (case checkAdmin e ctx of
        Some err \<Rightarrow> (Inl err, s)
      | None \<Rightarrow>
          (case Exec_UpsertLicense e (ur_LicenseKey req) (ur_ProductId req) (ur_IsActive req) s of
             (Inl err, s1) \<Rightarrow> (Inl (Internal, ''upsert failed: '' @ err), s1)
           | (Inr _, s1) \<Rightarrow> (Inr (), s1)))"

definition DeleteLicense ::
  "env \<Rightarrow> metadata option \<Rightarrow> DeleteLicenseRequest \<Rightarrow> store \<Rightarrow> (status + unit) \<times> store" where
  "DeleteLicense e ctx req s =
     (case checkAdmin e ctx of
        Some err \<Rightarrow> (Inl err, s)
      | None \<Rightarrow>
          (case Exec_DeleteLicenseRow e (dr_LicenseKey req) s of
             (Inl err, s1) \<Rightarrow> (Inl (Internal, ''delete failed: '' @ err), s1)
           | (Inr _, s1) \<Rightarrow> (Inr (), s1)))"

section \<open>The service (the earlier version, which issues a token to every caller)\<close>

text \<open>
  The second service file of the repository, translated on its own: \<open>checkAdmin\<close>,
  \<open>GetAuthToken\<close> (which takes no request and checks no API key), \<open>ValidateLicense\<close>,
  \<open>UpdateLicense\<close> and \<open>DeleteLicense\<close>. This version starts no background sweep.
\<close>

definition checkAdmin_v1 :: "env \<Rightarrow> metadata option \<Rightarrow> status option" where
  "checkAdmin_v1 e ctx =
     (case ctx of
        None \<Rightarrow> Some (Unauthenticated, ''metadata missing'')
      | Some md \<Rightarrow>
          (case md_Get md ''x-admin-secret'' of
             [] \<Rightarrow> Some (PermissionDenied, ''invalid admin secret'')
           | v # _ \<Rightarrow>
               if v \<noteq> os_Getenv e ''ADMIN_SECRET''
               then Some (PermissionDenied, ''invalid admin secret'')
               else None))"

definition GetAuthToken_v1 :: "env \<Rightarrow> store \<Rightarrow> (status + AuthTokenResponse) \<times> store" where
  "GetAuthToken_v1 e s =
     (case QueryRow_InsertToken e s of
        (Inl err, s1) \<Rightarrow> (Inl (Internal, ''failed to generate token: '' @ err), s1)
      | (Inr tok, s1) \<Rightarrow> (Inr \<lparr>Token = tok, ExpiresInSeconds = 30\<rparr>, s1))"

definition ValidateLicense_v1 ::
  "env \<Rightarrow> metadata option \<Rightarrow> ValidateRequest \<Rightarrow> store \<Rightarrow> (status + ValidateResponse) \<times> store" where
  "ValidateLicense_v1 e ctx req s =
     (case ctx of
        None \<Rightarrow> (Inl (Unauthenticated, ''no metadata''), s)
      | Some md \<Rightarrow>
          (case md_Get md ''x-access-token'' of
             [] \<Rightarrow> (Inl (Unauthenticated, ''missing x-access-token header''), s)
           | accessToken # _ \<Rightarrow>
               (case Exec_BurnToken e accessToken s of
                  (Inl err, s1) \<Rightarrow> (Inl (Internal, ''db error: '' @ err), s1)
                | (Inr rowsAffected, s1) \<Rightarrow>
                    if rowsAffected = 0
                    then (Inl (Unauthenticated, ''invalid or expired access token''), s1)
                    else
                      (case QueryRow_SelectLicense e (vr_LicenseKey req) (vr_ProductId req) s1 of
                         (Inl err, s2) \<Rightarrow> (Inl (Internal, ''db error: '' @ err), s2)
                       | (Inr None, s2) \<Rightarrow>
                           (Inr \<lparr>Valid = False, Message = ''License not found''\<rparr>, s2)
                       | (Inr (Some (isActive, storedHwid)), s2) \<Rightarrow>
                           if \<not> isActive
                           then (Inr \<lparr>Valid = False,
                                      Message = ''License is banned or inactive''\<rparr>, s2)
                           else if vr_Hwid req \<noteq> [] then
                             (if storedHwid = None \<or> storedHwid = Some [] then
                                (Inr \<lparr>Valid = True, Message = ''Authenticated''\<rparr>,
                                 snd (Exec_SetHwid e (vr_Hwid req) (vr_LicenseKey req) s2))
                              else if storedHwid \<noteq> Some (vr_Hwid req) then
                                (Inr \<lparr>Valid = False, Message = ''HWID mismatch''\<rparr>, s2)
                              else (Inr \<lparr>Valid = True, Message = ''Authenticated''\<rparr>, s2))
                           else (Inr \<lparr>Valid = True, Message = ''Authenticated''\<rparr>, s2)))))"

definition UpdateLicense_v1 ::
  "env \<Rightarrow> metadata option \<Rightarrow> UpdateLicenseRequest \<Rightarrow> store \<Rightarrow> (status + unit) \<times> store" where
  "UpdateLicense_v1 e ctx req s =
     (case checkAdmin_v1 e ctx of
        Some err \<Rightarrow> (Inl err, s)
      | None \<Rightarrow>
          (case Exec_UpsertLicense e (ur_LicenseKey req) (ur_ProductId req) (ur_IsActive req) s of
             (Inl err, s1) \<Rightarrow> (Inl (Internal, ''failed to upsert: '' @ err), s1)
           | (Inr _, s1) \<Rightarrow> (Inr (), s1)))"

definition DeleteLicense_v1 ::
  "env \<Rightarrow> metadata option \<Rightarrow> DeleteLicenseRequest \<Rightarrow> store \<Rightarrow> (status + unit) \<times> store" where
  "DeleteLicense_v1 e ctx req s =
     (case checkAdmin_v1 e ctx of
        Some err \<Rightarrow> (Inl err, s)
      | None \<Rightarrow>
          (case Exec_DeleteLicenseRow e (dr_LicenseKey req) s of
             (Inl err, s1) \<Rightarrow> (Inl (Internal, ''failed to delete: '' @ err), s1)
           | (Inr _, s1) \<Rightarrow> (Inr (), s1)))"

section \<open>Invariants and example inputs\<close>

text \<open>The unique keys of the tables.\<close>

definition unique_tokens :: "store \<Rightarrow> bool" where
  "unique_tokens s = distinct (map token (access_tokens s))"

definition unique_licenses :: "store \<Rightarrow> bool" where
  "unique_licenses s = distinct (map license_key (licenses s))"

text \<open>
  The token a call presents (the first value of header \<open>x-access-token\<close>), if any, and
  whether the table holds a row that \<open>BurnToken t\<close> would delete now.
\<close>

definition presented_token :: "metadata option \<Rightarrow> string option" where
  "presented_token ctx =
     (case ctx of
        None \<Rightarrow> None
      | Some md \<Rightarrow> (case md_Get md ''x-access-token'' of [] \<Rightarrow> None | t # _ \<Rightarrow> Some t))"

definition redeemable :: "env \<Rightarrow> store \<Rightarrow> string \<Rightarrow> bool" where
  "redeemable e s t = list_ex (live_match e t) (access_tokens s)"

text \<open>The row \<open>SelectLicense k p\<close> returns, if any.\<close>

definition license_of :: "string \<Rightarrow> string \<Rightarrow> store \<Rightarrow> license_row option" where
  "license_of k p s = find (\<lambda>r. license_key r = k \<and> product_id r = p) (licenses s)"

text \<open>A store that executes every statement, at time \<open>n\<close>.\<close>

definition at_time :: "nat \<Rightarrow> env" where
  "at_time n = \<lparr>now = n, fault = (\<lambda>q. None), gen_token = ''t1'', environ = Map.empty\<rparr>"

text \<open>A store that fails statement \<open>q\<close> with error \<open>err\<close>, at time \<open>n\<close>.\<close>

definition failing :: "stmt \<Rightarrow> string \<Rightarrow> nat \<Rightarrow> env" where
  "failing q err n = (at_time n)\<lparr>fault := (\<lambda>x. if x = q then Some err else None)\<rparr>"

definition ex_store :: store where
  "ex_store =
     \<lparr>api_keys = [\<lparr>key = ''valid-key'', key_expires_at = None\<rparr>],
      access_tokens = [\<lparr>token = ''t0'', created_at = 0, expires_at = 30\<rparr>],
      licenses = [\<lparr>license_key = ''LIC-1'', product_id = ''PROD-A'', is_active = True,
                   hwid = None\<rparr>,
                  \<lparr>license_key = ''LIC-2'', product_id = ''PROD-A'', is_active = False,
                   hwid = None\<rparr>],
      issued = []\<rparr>"

definition ex_tokens :: "string list \<Rightarrow> store" where
  "ex_tokens ts =
     ex_store\<lparr>access_tokens := map (\<lambda>t. \<lparr>token = t, created_at = 0, expires_at = 30\<rparr>) ts\<rparr>"

definition with_token :: "string \<Rightarrow> metadata option" where
  "with_token t = Some [(''x-access-token'', [t])]"

definition with_secret :: "string list \<Rightarrow> metadata option" where
  "with_secret vs = Some [(''x-admin-secret'', vs)]"

definition ex_request :: "string \<Rightarrow> string \<Rightarrow> ValidateRequest" where
  "ex_request k h = \<lparr>vr_LicenseKey = k, vr_ProductId = ''PROD-A'', vr_Hwid = h\<rparr>"

section \<open>The admin check\<close>

text \<open>
  The example inputs, unfolded when a witness is evaluated.
\<close>

lemmas ex_defs =
  at_time_def failing_def ex_store_def ex_tokens_def with_token_def with_secret_def
  ex_request_def

text \<open>
  Claim C10. When ADMIN_SECRET is unset or empty, a request whose metadata carries header
  x-admin-secret with an empty first value passes checkAdmin, whatever values follow the
  first one, and UpdateLicense and DeleteLicense go on to send their statement to the store.
  The check compares only the first header value with the configured secret: for every
  environment and every metadata with at least one value under the header, the check passes
  when the first value equals the secret and denies with PermissionDenied when it does not.
\<close>

theorem admin_check_empty_secret:
  assumes "environ e ''ADMIN_SECRET'' = None \<or> environ e ''ADMIN_SECRET'' = Some []"
    and "md_Get md ''x-admin-secret'' = [] # rest"
  shows "checkAdmin e (Some md) = None \<and>
     checkAdmin e (Some md) = checkAdmin e (Some [(''x-admin-secret'', [[]])]) \<and>
     (\<forall>e' md' v rest'. md_Get md' ''x-admin-secret'' = v # rest' \<longrightarrow>
        checkAdmin e' (Some md') =
          (if v = os_Getenv e' ''ADMIN_SECRET'' then None
           else Some (PermissionDenied, ''invalid admin secret''))) \<and>
     issued (snd (UpdateLicense e (Some md) ureq s)) =
       issued s @ [UpsertLicense (ur_LicenseKey ureq) (ur_ProductId ureq) (ur_IsActive ureq)] \<and>
     issued (snd (DeleteLicense e (Some md) dreq s)) =
       issued s @ [DeleteLicenseRow (dr_LicenseKey dreq)]"
proof -
  from assms(1) have secret: "os_Getenv e ''ADMIN_SECRET'' = []"
    by (auto simp: os_Getenv_def)
  with assms(2) have ok: "checkAdmin e (Some md) = None"
    by (simp add: checkAdmin_def)
  from secret have single: "checkAdmin e (Some [(''x-admin-secret'', [[]])]) = None"
    by (simp add: checkAdmin_def md_Get_def)
  have upd: "issued (snd (UpdateLicense e (Some md) ureq s)) =
       issued s @ [UpsertLicense (ur_LicenseKey ureq) (ur_ProductId ureq) (ur_IsActive ureq)]"
    using ok by (simp add: UpdateLicense_def Exec_UpsertLicense_def sent_def split: option.splits)
  have del: "issued (snd (DeleteLicense e (Some md) dreq s)) =
       issued s @ [DeleteLicenseRow (dr_LicenseKey dreq)]"
    using ok by (simp add: DeleteLicense_def Exec_DeleteLicenseRow_def sent_def split: option.splits)
  have first: "\<forall>e' md' v rest'. md_Get md' ''x-admin-secret'' = v # rest' \<longrightarrow>
      checkAdmin e' (Some md') =
        (if v = os_Getenv e' ''ADMIN_SECRET'' then None
         else Some (PermissionDenied, ''invalid admin secret''))"
    by (simp add: checkAdmin_def)
  from ok single first upd del show ?thesis by simp
qed

text \<open>
  An instance of C10: ADMIN_SECRET unset, header values ["", "other"] pass and header
  values ["other", ""] are denied.
\<close>

theorem admin_check_empty_secret_witness:
  "checkAdmin (at_time 10) (with_secret [[], ''other'']) = None \<and>
   checkAdmin (at_time 10) (with_secret [''other'', []]) =
     Some (PermissionDenied, ''invalid admin secret'') \<and>
   issued (snd (UpdateLicense (at_time 10) (with_secret [[], ''other''])
       \<lparr>ur_LicenseKey = ''LIC-9'', ur_ProductId = ''PROD-A'', ur_IsActive = True\<rparr> ex_store)) =
     [UpsertLicense ''LIC-9'' ''PROD-A'' True] \<and>
   issued (snd (DeleteLicense (at_time 10) (with_secret [[], ''other''])
       \<lparr>dr_LicenseKey = ''LIC-1''\<rparr> ex_store)) = [DeleteLicenseRow ''LIC-1'']"
proof -
  have unset: "environ (at_time 10) ''ADMIN_SECRET'' = None \<or>
      environ (at_time 10) ''ADMIN_SECRET'' = Some []"
    by (simp add: at_time_def)
  have header: "md_Get [(''x-admin-secret'', [[], ''other''])] ''x-admin-secret'' = [] # [''other'']"
    by (simp add: md_Get_def)
  have swapped: "md_Get [(''x-admin-secret'', [''other'', []])] ''x-admin-secret'' =
      ''other'' # [[]]"
    by (simp add: md_Get_def)
  note all = admin_check_empty_secret [OF unset header,
      where ureq = "\<lparr>ur_LicenseKey = ''LIC-9'', ur_ProductId = ''PROD-A'', ur_IsActive = True\<rparr>"
        and dreq = "\<lparr>dr_LicenseKey = ''LIC-1''\<rparr>" and s = ex_store]
  from all have "md_Get [(''x-admin-secret'', [''other'', []])] ''x-admin-secret'' =
      ''other'' # [[]] \<longrightarrow>
      checkAdmin (at_time 10) (Some [(''x-admin-secret'', [''other'', []])]) =
        (if ''other'' = os_Getenv (at_time 10) ''ADMIN_SECRET'' then None
         else Some (PermissionDenied, ''invalid admin secret''))"
    by blast
  with swapped have denied: "checkAdmin (at_time 10) (with_secret [''other'', []]) =
      Some (PermissionDenied, ''invalid admin secret'')"
    by (simp add: with_secret_def os_Getenv_def at_time_def)
  from all denied show ?thesis by (simp add: with_secret_def ex_store_def)
qed

section \<open>Burning a token\<close>

lemma live_match_le_one:
  "distinct (map token rows) \<Longrightarrow> length (filter (live_match e t) rows) \<le> 1"
proof (induction rows)
  case Nil
  then show ?case by simp
next
  case (Cons r rows)
  show ?case
  proof (cases "live_match e t r")
    case True
    then have "token r = t" by (simp add: live_match_def)
    with Cons.prems have "t \<notin> token ` set rows" by simp
    then have "\<forall>x \<in> set rows. token x \<noteq> t" by blast
    then have "filter (live_match e t) rows = []"
      by (auto simp: filter_empty_conv live_match_def)
    with True show ?thesis by simp
  next
    case False
    with Cons show ?thesis by simp
  qed
qed

lemma burnToken_tables:
  "fault e (BurnToken t) = None \<Longrightarrow>
   access_tokens (snd (burnToken e t s)) = filter (\<lambda>r. \<not> live_match e t r) (access_tokens s)"
  by (simp add: burnToken_def Exec_BurnToken_def sent_def)

lemma burnToken_issued: "issued (snd (burnToken e t s)) = issued s @ [BurnToken t]"
  by (simp add: burnToken_def Exec_BurnToken_def sent_def split: option.splits)

lemma burnToken_result:
  "fault e (BurnToken t) = None \<Longrightarrow>
   fst (burnToken e t s) =
     (if length (filter (live_match e t) (access_tokens s)) = 0
      then Inl (Unauthenticated, ''invalid or expired access token'') else Inr ())"
  by (simp add: burnToken_def Exec_BurnToken_def)

lemma burnToken_fault:
  "fault e (BurnToken t) = Some err \<Longrightarrow>
   burnToken e t s = (Inl (Internal, ''db error: '' @ err), sent (BurnToken t) s)"
  by (simp add: burnToken_def Exec_BurnToken_def)

lemma burnToken_other_tables:
  "licenses (snd (burnToken e t s)) = licenses s \<and> api_keys (snd (burnToken e t s)) = api_keys s"
  by (simp add: burnToken_def Exec_BurnToken_def sent_def split: option.splits)

lemma GetAuthToken_ok:
  assumes "fst (GetAuthToken e req s) = Inr resp"
  shows "Token resp = gen_token e \<and> ExpiresInSeconds resp = 30 \<and>
         gen_token e \<notin> set (map token (access_tokens s)) \<and>
         access_tokens (snd (GetAuthToken e req s)) = access_tokens s @ [new_token_row e]"
  using assms
  by (auto simp: GetAuthToken_def QueryRow_ApiKeyExists_def QueryRow_InsertToken_def sent_def
      split: if_splits option.splits)

lemma unique_tokens_GetAuthToken:
  "unique_tokens s \<Longrightarrow> unique_tokens (snd (GetAuthToken e req s))"
  by (auto simp: unique_tokens_def GetAuthToken_def QueryRow_ApiKeyExists_def
      QueryRow_InsertToken_def sent_def new_token_row_def split: if_splits option.splits)

lemma unique_tokens_burnToken:
  "unique_tokens s \<Longrightarrow> unique_tokens (snd (burnToken e t s))"
  by (auto simp: unique_tokens_def burnToken_def Exec_BurnToken_def sent_def distinct_map_filter
      split: if_splits option.splits)

lemma burn_after_issue:
  assumes uniq: "unique_tokens s"
    and issue: "fst (GetAuthToken e0 req s) = Inr resp"
    and t1: "now e1 < now e0 + 30"
    and f1: "fault e1 (BurnToken (Token resp)) = None"
    and f2: "fault e2 (BurnToken (Token resp)) = None"
  shows "fst (burnToken e1 (Token resp) (snd (GetAuthToken e0 req s))) = Inr () \<and>
         fst (burnToken e2 (Token resp)
                (snd (burnToken e1 (Token resp) (snd (GetAuthToken e0 req s))))) =
           Inl (Unauthenticated, ''invalid or expired access token'')"
proof -
  let ?t = "Token resp"
  let ?s0 = "snd (GetAuthToken e0 req s)"
  let ?s1 = "snd (burnToken e1 ?t ?s0)"
  from GetAuthToken_ok [OF issue]
  have tok: "?t = gen_token e0"
    and rows: "access_tokens ?s0 = access_tokens s @ [new_token_row e0]"
    by simp_all
  from t1 tok have "live_match e1 ?t (new_token_row e0)"
    by (simp add: live_match_def new_token_row_def)
  with rows have "filter (live_match e1 ?t) (access_tokens ?s0) \<noteq> []"
    by (simp add: filter_empty_conv)
  with f1 have first: "fst (burnToken e1 ?t ?s0) = Inr ()"
    by (simp add: burnToken_result)
  from uniq have u0: "distinct (map token (access_tokens ?s0))"
    using unique_tokens_GetAuthToken [of s e0 req] by (simp add: unique_tokens_def)
  have gone: "\<forall>r \<in> set (access_tokens ?s1). token r \<noteq> ?t"
  proof
    fix r assume r: "r \<in> set (access_tokens ?s1)"
    with f1 have in0: "r \<in> set (access_tokens ?s0)" and dead: "\<not> live_match e1 ?t r"
      by (simp_all add: burnToken_tables)
    show "token r \<noteq> ?t"
    proof
      assume eq: "token r = ?t"
      from in0 rows have "r \<in> set (access_tokens s) \<or> r = new_token_row e0" by auto
      then show False
      proof
        assume "r \<in> set (access_tokens s)"
        with eq tok GetAuthToken_ok [OF issue] show False by force
      next
        assume "r = new_token_row e0"
        with dead t1 tok show False by (simp add: live_match_def new_token_row_def)
      qed
    qed
  qed
  then have "filter (live_match e2 ?t) (access_tokens ?s1) = []"
    by (auto simp: filter_empty_conv live_match_def)
  with f2 have second: "fst (burnToken e2 ?t ?s1) =
      Inl (Unauthenticated, ''invalid or expired access token'')"
    by (simp add: burnToken_result)
  from first second show ?thesis by simp
qed

lemma ValidateLicense_token_error:
  assumes "md_Get md ''x-access-token'' = t # rest"
  shows "(fst (ValidateLicense e (Some md) req s) =
            Inl (Unauthenticated, ''invalid or expired access token'')) =
         (fst (burnToken e t s) = Inl (Unauthenticated, ''invalid or expired access token''))"
  using assms
  by (auto simp: ValidateLicense_def burnToken_def Exec_BurnToken_def
      QueryRow_SelectLicense_def split: option.splits if_splits prod.splits sum.splits)

text \<open>
  Claim C1. On a table whose tokens are unique, when the store executes the statement, the
  burn step deletes exactly the rows with this token and an expiry in the future, in one
  BurnToken statement; it succeeds exactly when one row was deleted, and when none was
  deleted it fails with Unauthenticated, which is also what ValidateLicense returns. A token
  just issued by GetAuthToken and burned within its 30 seconds is burned with success, and
  burning it again fails with Unauthenticated.
\<close>

theorem burnToken_single_use:
  assumes uniq: "unique_tokens s"
    and exec: "fault e (BurnToken t) = None"
  shows "access_tokens (snd (burnToken e t s)) =
           filter (\<lambda>r. \<not> (token r = t \<and> now e < expires_at r)) (access_tokens s) \<and>
         issued (snd (burnToken e t s)) = issued s @ [BurnToken t] \<and>
         ((fst (burnToken e t s) = Inr ()) =
            (length (access_tokens (snd (burnToken e t s))) + 1 = length (access_tokens s))) \<and>
         (length (access_tokens (snd (burnToken e t s))) = length (access_tokens s) \<longrightarrow>
            fst (burnToken e t s) = Inl (Unauthenticated, ''invalid or expired access token'')) \<and>
         (\<forall>md rest req. md_Get md ''x-access-token'' = t # rest \<longrightarrow>
            (fst (ValidateLicense e (Some md) req s) =
               Inl (Unauthenticated, ''invalid or expired access token'')) =
            (length (access_tokens (snd (burnToken e t s))) = length (access_tokens s))) \<and>
         (\<forall>e0 req resp e1 e2.
            fst (GetAuthToken e0 req s) = Inr resp \<and> now e1 < now e0 + 30 \<and>
            fault e1 (BurnToken (Token resp)) = None \<and>
            fault e2 (BurnToken (Token resp)) = None \<longrightarrow>
            fst (burnToken e1 (Token resp) (snd (GetAuthToken e0 req s))) = Inr () \<and>
            fst (burnToken e2 (Token resp)
                   (snd (burnToken e1 (Token resp) (snd (GetAuthToken e0 req s))))) =
              Inl (Unauthenticated, ''invalid or expired access token''))"
proof -
  define n where "n = length (filter (live_match e t) (access_tokens s))"
  let ?s' = "snd (burnToken e t s)"
  have rows: "access_tokens ?s' = filter (\<lambda>r. \<not> live_match e t r) (access_tokens s)"
    using exec by (rule burnToken_tables)
  have count: "length (access_tokens ?s') + n = length (access_tokens s)"
    unfolding rows n_def
    using sum_length_filter_compl [of "live_match e t" "access_tokens s"] by simp
  have le: "n \<le> 1"
    using uniq unfolding unique_tokens_def n_def by (rule live_match_le_one)
  have res: "fst (burnToken e t s) =
      (if n = 0 then Inl (Unauthenticated, ''invalid or expired access token'') else Inr ())"
    unfolding n_def using exec by (rule burnToken_result)
  have one: "(fst (burnToken e t s) = Inr ()) =
      (length (access_tokens ?s') + 1 = length (access_tokens s))"
    using res le count by (cases "n = 0") auto
  have zero: "length (access_tokens ?s') = length (access_tokens s) \<longrightarrow>
      fst (burnToken e t s) = Inl (Unauthenticated, ''invalid or expired access token'')"
    using res count by auto
  have handler: "\<forall>md rest req. md_Get md ''x-access-token'' = t # rest \<longrightarrow>
      (fst (ValidateLicense e (Some md) req s) =
         Inl (Unauthenticated, ''invalid or expired access token'')) =
      (length (access_tokens ?s') = length (access_tokens s))"
    using res count by (auto simp: ValidateLicense_token_error)
  have twice: "\<forall>e0 req resp e1 e2.
      fst (GetAuthToken e0 req s) = Inr resp \<and> now e1 < now e0 + 30 \<and>
      fault e1 (BurnToken (Token resp)) = None \<and>
      fault e2 (BurnToken (Token resp)) = None \<longrightarrow>
      fst (burnToken e1 (Token resp) (snd (GetAuthToken e0 req s))) = Inr () \<and>
      fst (burnToken e2 (Token resp)
             (snd (burnToken e1 (Token resp) (snd (GetAuthToken e0 req s))))) =
        Inl (Unauthenticated, ''invalid or expired access token'')"
    using burn_after_issue [OF uniq] by blast
  have rows': "access_tokens ?s' =
      filter (\<lambda>r. \<not> (token r = t \<and> now e < expires_at r)) (access_tokens s)"
    using rows by (simp add: live_match_def)
  from rows' burnToken_issued [of e t s] one zero handler twice show ?thesis
    by blast
qed

text \<open>
  An instance of C1: token t0 of the example store burned at time 10, and token t1 issued
  at time 10, burned at time 20 and again at time 25.
\<close>

theorem burnToken_single_use_witness:
  "unique_tokens ex_store \<and>
   fst (burnToken (at_time 10) ''t0'' ex_store) = Inr () \<and>
   access_tokens (snd (burnToken (at_time 10) ''t0'' ex_store)) = [] \<and>
   fst (burnToken (at_time 20) ''t1''
          (snd (GetAuthToken (at_time 10) \<lparr>ApiKey = ''valid-key''\<rparr> ex_store))) = Inr () \<and>
   fst (burnToken (at_time 25) ''t1''
          (snd (burnToken (at_time 20) ''t1''
             (snd (GetAuthToken (at_time 10) \<lparr>ApiKey = ''valid-key''\<rparr> ex_store))))) =
     Inl (Unauthenticated, ''invalid or expired access token'')"
proof -
  have uniq: "unique_tokens ex_store"
    by (simp add: unique_tokens_def ex_store_def)
  have exec: "fault (at_time 10) (BurnToken ''t0'') = None"
    by (simp add: at_time_def)
  have issue: "fst (GetAuthToken (at_time 10) \<lparr>ApiKey = ''valid-key''\<rparr> ex_store) =
      Inr \<lparr>Token = ''t1'', ExpiresInSeconds = 30\<rparr>"
    by (simp add: GetAuthToken_def QueryRow_ApiKeyExists_def QueryRow_InsertToken_def
        key_valid_def sent_def ex_defs)
  note all = burnToken_single_use [OF uniq exec]
  have rows: "access_tokens (snd (burnToken (at_time 10) ''t0'' ex_store)) = []"
    using all by (simp add: ex_defs)
  have first: "fst (burnToken (at_time 10) ''t0'' ex_store) = Inr ()"
    using all rows by (simp add: ex_store_def)
  have twice: "fst (burnToken (at_time 20) ''t1''
          (snd (GetAuthToken (at_time 10) \<lparr>ApiKey = ''valid-key''\<rparr> ex_store))) = Inr () \<and>
     fst (burnToken (at_time 25) ''t1''
          (snd (burnToken (at_time 20) ''t1''
             (snd (GetAuthToken (at_time 10) \<lparr>ApiKey = ''valid-key''\<rparr> ex_store))))) =
     Inl (Unauthenticated, ''invalid or expired access token'')"
  proof -
    from all have "\<forall>e0 req resp e1 e2.
            fst (GetAuthToken e0 req ex_store) = Inr resp \<and> now e1 < now e0 + 30 \<and>
            fault e1 (BurnToken (Token resp)) = None \<and>
            fault e2 (BurnToken (Token resp)) = None \<longrightarrow>
            fst (burnToken e1 (Token resp) (snd (GetAuthToken e0 req ex_store))) = Inr () \<and>
            fst (burnToken e2 (Token resp)
                   (snd (burnToken e1 (Token resp) (snd (GetAuthToken e0 req ex_store))))) =
              Inl (Unauthenticated, ''invalid or expired access token'')" by blast
    from this [rule_format, of "at_time 10" "\<lparr>ApiKey = ''valid-key''\<rparr>"
        "\<lparr>Token = ''t1'', ExpiresInSeconds = 30\<rparr>" "at_time 20" "at_time 25"] issue
    show ?thesis by (simp add: at_time_def)
  qed
  from uniq first rows twice show ?thesis by simp
qed

section \<open>A call without a redeemable token\<close>

lemma ValidateLicense_no_token:
  "presented_token ctx = None \<Longrightarrow>
   snd (ValidateLicense e ctx req s) = s \<and>
   (\<exists>msg. fst (ValidateLicense e ctx req s) = Inl (Unauthenticated, msg))"
  by (auto simp: presented_token_def ValidateLicense_def split: option.splits list.splits)

lemma ValidateLicense_burn_failed:
  assumes "presented_token ctx = Some t" and "fst (burnToken e t s) = Inl err"
  shows "ValidateLicense e ctx req s = (Inl err, snd (burnToken e t s))"
  using assms
  by (auto simp: presented_token_def ValidateLicense_def split: option.splits list.splits prod.splits sum.splits)

lemma not_redeemable_count:
  "\<not> redeemable e s t \<Longrightarrow> length (filter (live_match e t) (access_tokens s)) = 0"
  by (simp add: redeemable_def list_ex_iff filter_empty_conv)

lemma burnToken_not_redeemable:
  assumes "\<not> redeemable e s t"
  shows "\<exists>err. fst (burnToken e t s) = Inl err"
    and "fault e (BurnToken t) = None \<Longrightarrow>
         fst (burnToken e t s) = Inl (Unauthenticated, ''invalid or expired access token'')"
  using not_redeemable_count [OF assms]
  by (auto simp: burnToken_def Exec_BurnToken_def split: option.splits)

text \<open>
  Claim C2. A call that presents no token, or a token no row of which can be redeemed now
  (never issued, already redeemed or expired), sends the store nothing but the burn
  statement of that token (nothing at all when no token is presented): no statement reads
  or writes table licenses, which is left as it was. The call returns the error of the burn
  step as it is, and that error is Unauthenticated whenever the store executes the burn
  statement.
\<close>

theorem ValidateLicense_bad_token_stops:
  assumes bad: "case presented_token ctx of None \<Rightarrow> True | Some t \<Rightarrow> \<not> redeemable e s t"
  shows "issued (snd (ValidateLicense e ctx req s)) =
           issued s @ (case presented_token ctx of None \<Rightarrow> [] | Some t \<Rightarrow> [BurnToken t]) \<and>
         licenses (snd (ValidateLicense e ctx req s)) = licenses s \<and>
         (\<forall>t. presented_token ctx = Some t \<longrightarrow>
            (\<exists>err. fst (burnToken e t s) = Inl err \<and>
                   fst (ValidateLicense e ctx req s) = Inl err)) \<and>
         ((\<forall>t. presented_token ctx = Some t \<longrightarrow> fault e (BurnToken t) = None) \<longrightarrow>
            (\<exists>msg. fst (ValidateLicense e ctx req s) = Inl (Unauthenticated, msg)))"
proof (cases "presented_token ctx")
  case None
  with ValidateLicense_no_token [OF None, of e req s] show ?thesis by auto
next
  case (Some t)
  with bad have dead: "\<not> redeemable e s t" by simp
  from burnToken_not_redeemable(1) [OF dead] obtain err
    where err: "fst (burnToken e t s) = Inl err" by blast
  have run: "ValidateLicense e ctx req s = (Inl err, snd (burnToken e t s))"
    using Some err by (rule ValidateLicense_burn_failed)
  have unauth: "fault e (BurnToken t) = None \<Longrightarrow> err = (Unauthenticated, ''invalid or expired access token'')"
    using burnToken_not_redeemable(2) [OF dead] err by simp
  from Some run err unauth burnToken_issued [of e t s] burnToken_other_tables [of e t s]
  show ?thesis by auto
qed

text \<open>
  An instance of C2: token t0 presented at time 30, when it has expired.
\<close>

theorem ValidateLicense_bad_token_stops_witness:
  "\<not> redeemable (at_time 30) ex_store ''t0'' \<and>
   fst (ValidateLicense (at_time 30) (with_token ''t0'') (ex_request ''LIC-1'' []) ex_store) =
     Inl (Unauthenticated, ''invalid or expired access token'') \<and>
   issued (snd (ValidateLicense (at_time 30) (with_token ''t0'') (ex_request ''LIC-1'' [])
     ex_store)) = [BurnToken ''t0''] \<and>
   licenses (snd (ValidateLicense (at_time 30) (with_token ''t0'') (ex_request ''LIC-1'' [])
     ex_store)) = licenses ex_store"
proof -
  have tok: "presented_token (with_token ''t0'') = Some ''t0''"
    by (simp add: presented_token_def with_token_def md_Get_def)
  have dead: "\<not> redeemable (at_time 30) ex_store ''t0''"
    by (simp add: redeemable_def live_match_def ex_defs)
  have bad: "case presented_token (with_token ''t0'') of None \<Rightarrow> True
      | Some t \<Rightarrow> \<not> redeemable (at_time 30) ex_store t"
    using tok dead by simp
  have exec: "fault (at_time 30) (BurnToken ''t0'') = None"
    by (simp add: at_time_def)
  have burn: "fst (burnToken (at_time 30) ''t0'' ex_store) =
      Inl (Unauthenticated, ''invalid or expired access token'')"
    by (simp add: burnToken_def Exec_BurnToken_def live_match_def ex_defs)
  from ValidateLicense_bad_token_stops [OF bad, of "ex_request ''LIC-1'' []"] tok burn dead
  show ?thesis by (simp add: ex_store_def)
qed

section \<open>The token is spent whatever the answer\<close>

lemma snd_Exec_SetHwid_tokens:
  "access_tokens (snd (Exec_SetHwid e h k s)) = access_tokens s"
  by (simp add: Exec_SetHwid_def sent_def split: option.splits)

lemma snd_QueryRow_SelectLicense:
  "snd (QueryRow_SelectLicense e k p s) = sent (SelectLicense k p) s"
  by (simp add: QueryRow_SelectLicense_def split: option.splits)

lemma ValidateLicense_access_tokens:
  assumes "presented_token ctx = Some t"
  shows "access_tokens (snd (ValidateLicense e ctx req s)) =
         access_tokens (snd (burnToken e t s))"
proof -
  obtain r1 s1 where b: "burnToken e t s = (r1, s1)" by (cases "burnToken e t s")
  obtain r2 s2 where q: "QueryRow_SelectLicense e (vr_LicenseKey req) (vr_ProductId req) s1 = (r2, s2)"
    by (cases "QueryRow_SelectLicense e (vr_LicenseKey req) (vr_ProductId req) s1")
  from q have s2: "access_tokens s2 = access_tokens s1"
    using snd_QueryRow_SelectLicense [of e "vr_LicenseKey req" "vr_ProductId req" s1]
    by (simp add: sent_def)
  from assms b q s2 show ?thesis
    by (auto simp: presented_token_def ValidateLicense_def snd_Exec_SetHwid_tokens
        split: option.splits list.splits sum.splits if_splits)
qed

lemma burnToken_ok_executed:
  "fst (burnToken e t s) = Inr () \<Longrightarrow>
   fault e (BurnToken t) = None \<and> filter (live_match e t) (access_tokens s) \<noteq> []"
  by (auto simp: burnToken_def Exec_BurnToken_def split: option.splits if_splits)

text \<open>
  Claim C9. When the burn step of a ValidateLicense call succeeds, the rows of the token are
  gone from the store the call leaves behind, whatever the call returns (a response with
  valid true or false, or an error of the license lookup): the table is the old one without
  the redeemable rows of the token and is strictly shorter, and no later call presenting the
  same token gets past the burn step.
\<close>

theorem ValidateLicense_consumes_token:
  assumes tok: "presented_token ctx = Some t"
    and ok: "fst (burnToken e t s) = Inr ()"
  shows "access_tokens (snd (ValidateLicense e ctx req s)) =
           filter (\<lambda>r. \<not> (token r = t \<and> now e < expires_at r)) (access_tokens s) \<and>
         length (access_tokens (snd (ValidateLicense e ctx req s))) < length (access_tokens s) \<and>
         (\<forall>e' req'. now e \<le> now e' \<and> fault e' (BurnToken t) = None \<longrightarrow>
            fst (ValidateLicense e' ctx req' (snd (ValidateLicense e ctx req s))) =
              Inl (Unauthenticated, ''invalid or expired access token''))"
proof -
  let ?s' = "snd (ValidateLicense e ctx req s)"
  from burnToken_ok_executed [OF ok]
  have exec: "fault e (BurnToken t) = None"
    and some: "filter (live_match e t) (access_tokens s) \<noteq> []" by simp_all
  have rows: "access_tokens ?s' = filter (\<lambda>r. \<not> live_match e t r) (access_tokens s)"
    using ValidateLicense_access_tokens [OF tok] burnToken_tables [OF exec] by simp
  have fewer: "length (access_tokens ?s') < length (access_tokens s)"
    unfolding rows
    using sum_length_filter_compl [of "live_match e t" "access_tokens s"] some
    by (cases "filter (live_match e t) (access_tokens s)") auto
  have later: "fst (ValidateLicense e' ctx req' ?s') =
      Inl (Unauthenticated, ''invalid or expired access token'')"
    if "now e \<le> now e'" and f: "fault e' (BurnToken t) = None" for e' req'
  proof -
    have "\<not> live_match e' t r" if "r \<in> set (access_tokens ?s')" for r
      using that \<open>now e \<le> now e'\<close> unfolding rows by (auto simp: live_match_def)
    then have dead: "\<not> redeemable e' ?s' t"
      by (auto simp: redeemable_def list_ex_iff)
    have "fst (burnToken e' t ?s') = Inl (Unauthenticated, ''invalid or expired access token'')"
      using burnToken_not_redeemable(2) [OF dead f] .
    with ValidateLicense_burn_failed [OF tok this] show ?thesis by simp
  qed
  from rows have rows': "access_tokens ?s' =
      filter (\<lambda>r. \<not> (token r = t \<and> now e < expires_at r)) (access_tokens s)"
    by (simp add: live_match_def)
  from rows' fewer later show ?thesis by blast
qed

text \<open>
  An instance of C9: token t0 spent on the inactive license LIC-2, then presented again.
\<close>

theorem ValidateLicense_consumes_token_witness:
  "fst (burnToken (at_time 10) ''t0'' ex_store) = Inr () \<and>
   fst (ValidateLicense (at_time 10) (with_token ''t0'') (ex_request ''LIC-2'' []) ex_store) =
     Inr \<lparr>Valid = False, Message = ''License is suspended''\<rparr> \<and>
   access_tokens (snd (ValidateLicense (at_time 10) (with_token ''t0'') (ex_request ''LIC-2'' [])
     ex_store)) = [] \<and>
   fst (ValidateLicense (at_time 11) (with_token ''t0'') (ex_request ''LIC-1'' [])
     (snd (ValidateLicense (at_time 10) (with_token ''t0'') (ex_request ''LIC-2'' []) ex_store))) =
     Inl (Unauthenticated, ''invalid or expired access token'')"
proof -
  have tok: "presented_token (with_token ''t0'') = Some ''t0''"
    by (simp add: presented_token_def with_token_def md_Get_def)
  have burn: "fst (burnToken (at_time 10) ''t0'' ex_store) = Inr ()"
    by (simp add: burnToken_def Exec_BurnToken_def live_match_def ex_defs)
  have resp: "fst (ValidateLicense (at_time 10) (with_token ''t0'') (ex_request ''LIC-2'' [])
      ex_store) = Inr \<lparr>Valid = False, Message = ''License is suspended''\<rparr>"
    by (simp add: ValidateLicense_def burnToken_def Exec_BurnToken_def live_match_def
        QueryRow_SelectLicense_def md_Get_def sent_def ex_defs)
  note all = ValidateLicense_consumes_token [OF tok burn, of "ex_request ''LIC-2'' []"]
  from all have rows: "access_tokens (snd (ValidateLicense (at_time 10) (with_token ''t0'')
      (ex_request ''LIC-2'' []) ex_store)) = []"
    by (simp add: ex_store_def at_time_def)
  from all have "now (at_time 10) \<le> now (at_time 11) \<and>
      fault (at_time 11) (BurnToken ''t0'') = None \<longrightarrow>
      fst (ValidateLicense (at_time 11) (with_token ''t0'') (ex_request ''LIC-1'' [])
        (snd (ValidateLicense (at_time 10) (with_token ''t0'') (ex_request ''LIC-2'' [])
          ex_store))) = Inl (Unauthenticated, ''invalid or expired access token'')"
    by blast
  then have again: "fst (ValidateLicense (at_time 11) (with_token ''t0'') (ex_request ''LIC-1'' [])
        (snd (ValidateLicense (at_time 10) (with_token ''t0'') (ex_request ''LIC-2'' [])
          ex_store))) = Inl (Unauthenticated, ''invalid or expired access token'')"
    by (simp add: at_time_def)
  from burn resp rows again show ?thesis by simp
qed

section \<open>The hardware lock and store errors\<close>

lemma burnToken_ok_store:
  assumes "fst (burnToken e t s) = Inr ()"
  shows "burnToken e t s =
     (Inr (), sent (BurnToken t)
        (s\<lparr>access_tokens := filter (\<lambda>r. \<not> live_match e t r) (access_tokens s)\<rparr>))"
  using assms
  by (auto simp: burnToken_def Exec_BurnToken_def split: option.splits if_splits)

lemma ValidateLicense_lookup_failed:
  assumes "presented_token ctx = Some t" and "fst (burnToken e t s) = Inr ()"
    and "fault e (SelectLicense (vr_LicenseKey req) (vr_ProductId req)) = Some err"
  shows "fst (ValidateLicense e ctx req s) = Inl (Internal, ''db error: '' @ err)"
  using assms(1,3) burnToken_ok_store [OF assms(2)]
  by (auto simp: presented_token_def ValidateLicense_def QueryRow_SelectLicense_def
      split: option.splits list.splits)

lemma ValidateLicense_found:
  assumes tok: "presented_token ctx = Some t" and burn: "fst (burnToken e t s) = Inr ()"
    and look: "fault e (SelectLicense (vr_LicenseKey req) (vr_ProductId req)) = None"
    and row: "license_of (vr_LicenseKey req) (vr_ProductId req) s = Some row"
  shows "ValidateLicense e ctx req s =
     (let s2 = sent (SelectLicense (vr_LicenseKey req) (vr_ProductId req))
                 (snd (burnToken e t s)) in
      if \<not> is_active row then (Inr \<lparr>Valid = False, Message = ''License is suspended''\<rparr>, s2)
      else if vr_Hwid req \<noteq> [] then
        (if hwid row = None \<or> hwid row = Some [] then
           (Inr \<lparr>Valid = True, Message = ''Authenticated''\<rparr>,
            snd (Exec_SetHwid e (vr_Hwid req) (vr_LicenseKey req) s2))
         else if hwid row \<noteq> Some (vr_Hwid req) then
           (Inr \<lparr>Valid = False, Message = ''HWID mismatch''\<rparr>, s2)
         else (Inr \<lparr>Valid = True, Message = ''Authenticated''\<rparr>, s2))
      else (Inr \<lparr>Valid = True, Message = ''Authenticated''\<rparr>, s2))"
  using tok look row burnToken_ok_store [OF burn]
  by (auto simp: presented_token_def ValidateLicense_def QueryRow_SelectLicense_def
      license_of_def sent_def Let_def split: option.splits list.splits)

lemma find_map_set_hwid:
  assumes "find (\<lambda>r. license_key r = k \<and> product_id r = p) rows = Some row"
  shows "find (\<lambda>r. license_key r = k \<and> product_id r = p) (map (set_hwid h k) rows) =
         Some (row\<lparr>hwid := Some h\<rparr>)"
  using assms
  by (induction rows) (auto simp: set_hwid_def split: if_splits)

text \<open>
  Claim C4, as amended. A ValidateLicense call whose burn step succeeds, whose lookup the store
  executes and finds an active row, and whose request carries a hardware id: when the row's
  hwid is NULL or empty the call answers valid true; if the store executes the update, every
  row with this license key gets the supplied hwid, so that the row looked up now holds it,
  and if the store fails the update, table licenses is unchanged. When the stored hwid equals
  the supplied one the call answers valid true and table licenses is unchanged; when it
  differs the call answers valid false with message HWID mismatch and table licenses is
  unchanged.
\<close>

theorem hwid_lock:
  assumes tok: "presented_token ctx = Some t"
    and burn: "fst (burnToken e t s) = Inr ()"
    and look: "fault e (SelectLicense (vr_LicenseKey req) (vr_ProductId req)) = None"
    and row: "license_of (vr_LicenseKey req) (vr_ProductId req) s = Some row"
    and active: "is_active row"
    and supplied: "vr_Hwid req \<noteq> []"
  shows "((hwid row = None \<or> hwid row = Some []) \<longrightarrow>
            fst (ValidateLicense e ctx req s) = Inr \<lparr>Valid = True, Message = ''Authenticated''\<rparr> \<and>
            (fault e (SetHwid (vr_Hwid req) (vr_LicenseKey req)) = None \<longrightarrow>
               licenses (snd (ValidateLicense e ctx req s)) =
                 map (\<lambda>r. if license_key r = vr_LicenseKey req
                          then r\<lparr>hwid := Some (vr_Hwid req)\<rparr> else r) (licenses s) \<and>
               license_of (vr_LicenseKey req) (vr_ProductId req)
                   (snd (ValidateLicense e ctx req s)) =
                 Some (row\<lparr>hwid := Some (vr_Hwid req)\<rparr>)) \<and>
            (fault e (SetHwid (vr_Hwid req) (vr_LicenseKey req)) \<noteq> None \<longrightarrow>
               licenses (snd (ValidateLicense e ctx req s)) = licenses s)) \<and>
         (hwid row = Some (vr_Hwid req) \<longrightarrow>
            fst (ValidateLicense e ctx req s) = Inr \<lparr>Valid = True, Message = ''Authenticated''\<rparr> \<and>
            licenses (snd (ValidateLicense e ctx req s)) = licenses s) \<and>
         (hwid row \<noteq> None \<and> hwid row \<noteq> Some [] \<and> hwid row \<noteq> Some (vr_Hwid req) \<longrightarrow>
            fst (ValidateLicense e ctx req s) = Inr \<lparr>Valid = False, Message = ''HWID mismatch''\<rparr> \<and>
            licenses (snd (ValidateLicense e ctx req s)) = licenses s)"
proof -
  let ?k = "vr_LicenseKey req" and ?p = "vr_ProductId req" and ?h = "vr_Hwid req"
  note run = ValidateLicense_found [OF tok burn look row]
  have kept: "licenses (snd (burnToken e t s)) = licenses s"
    using burnToken_other_tables [of e t s] by simp
  have unset: "fst (ValidateLicense e ctx req s) = Inr \<lparr>Valid = True, Message = ''Authenticated''\<rparr>"
    if "hwid row = None \<or> hwid row = Some []"
    using that active supplied by (auto simp: run Let_def)
  have locked: "licenses (snd (ValidateLicense e ctx req s)) = map (set_hwid ?h ?k) (licenses s)"
    if "hwid row = None \<or> hwid row = Some []" and "fault e (SetHwid ?h ?k) = None"
    using that active supplied kept by (auto simp: run Let_def Exec_SetHwid_def sent_def)
  have found: "license_of ?k ?p (snd (ValidateLicense e ctx req s)) = Some (row\<lparr>hwid := Some ?h\<rparr>)"
    if "hwid row = None \<or> hwid row = Some []" and "fault e (SetHwid ?h ?k) = None"
    using locked [OF that] row by (simp add: license_of_def find_map_set_hwid)
  have dropped: "licenses (snd (ValidateLicense e ctx req s)) = licenses s"
    if "hwid row = None \<or> hwid row = Some []" and "fault e (SetHwid ?h ?k) \<noteq> None"
    using that active supplied kept by (auto simp: run Let_def Exec_SetHwid_def sent_def)
  have same: "fst (ValidateLicense e ctx req s) = Inr \<lparr>Valid = True, Message = ''Authenticated''\<rparr> \<and>
      licenses (snd (ValidateLicense e ctx req s)) = licenses s"
    if "hwid row = Some ?h"
    using that active supplied kept by (auto simp: run Let_def sent_def)
  have other: "fst (ValidateLicense e ctx req s) = Inr \<lparr>Valid = False, Message = ''HWID mismatch''\<rparr> \<and>
      licenses (snd (ValidateLicense e ctx req s)) = licenses s"
    if "hwid row \<noteq> None \<and> hwid row \<noteq> Some [] \<and> hwid row \<noteq> Some ?h"
    using that active supplied kept by (auto simp: run Let_def sent_def)
  have set_hwid_eq: "set_hwid ?h ?k = (\<lambda>r. if license_key r = ?k then r\<lparr>hwid := Some ?h\<rparr> else r)"
    by (rule ext) (simp add: set_hwid_def)
  from unset locked found dropped same other show ?thesis
    unfolding set_hwid_eq by blast
qed

text \<open>
  Claim C4 as stated fails: the call passes the burn step and finds the active row LIC-1 with
  a NULL hwid, the request carries hwid A, the store fails the update, and the call answers
  valid true while the row's hwid is still NULL.
\<close>

theorem hwid_lock_counterexample:
  "presented_token (with_token ''t0'') = Some ''t0'' \<and>
   fst (burnToken (failing (SetHwid ''A'' ''LIC-1'') ''connection reset'' 10) ''t0'' ex_store) =
     Inr () \<and>
   license_of ''LIC-1'' ''PROD-A'' ex_store =
     Some \<lparr>license_key = ''LIC-1'', product_id = ''PROD-A'', is_active = True, hwid = None\<rparr> \<and>
   vr_Hwid (ex_request ''LIC-1'' ''A'') = ''A'' \<and>
   fst (ValidateLicense (failing (SetHwid ''A'' ''LIC-1'') ''connection reset'' 10)
          (with_token ''t0'') (ex_request ''LIC-1'' ''A'') ex_store) =
     Inr \<lparr>Valid = True, Message = ''Authenticated''\<rparr> \<and>
   license_of ''LIC-1'' ''PROD-A''
       (snd (ValidateLicense (failing (SetHwid ''A'' ''LIC-1'') ''connection reset'' 10)
          (with_token ''t0'') (ex_request ''LIC-1'' ''A'') ex_store)) =
     Some \<lparr>license_key = ''LIC-1'', product_id = ''PROD-A'', is_active = True, hwid = None\<rparr> \<and>
   license_of ''LIC-1'' ''PROD-A''
       (snd (ValidateLicense (failing (SetHwid ''A'' ''LIC-1'') ''connection reset'' 10)
          (with_token ''t0'') (ex_request ''LIC-1'' ''A'') ex_store)) \<noteq>
     Some \<lparr>license_key = ''LIC-1'', product_id = ''PROD-A'', is_active = True,
           hwid = Some ''A''\<rparr>"
  by (simp add: ValidateLicense_def burnToken_def Exec_BurnToken_def live_match_def
      QueryRow_SelectLicense_def Exec_SetHwid_def presented_token_def license_of_def
      md_Get_def sent_def ex_defs)

text \<open>
  An instance of C4: license LIC-1 locked to A, validated again with A, then with B.
\<close>

theorem hwid_lock_witness:
  "fst (ValidateLicense (at_time 10) (with_token ''t1'') (ex_request ''LIC-1'' ''A'')
          (ex_tokens [''t1'', ''t2'', ''t3''])) =
     Inr \<lparr>Valid = True, Message = ''Authenticated''\<rparr> \<and>
   license_of ''LIC-1'' ''PROD-A''
       (snd (ValidateLicense (at_time 10) (with_token ''t1'') (ex_request ''LIC-1'' ''A'')
          (ex_tokens [''t1'', ''t2'', ''t3'']))) =
     Some \<lparr>license_key = ''LIC-1'', product_id = ''PROD-A'', is_active = True,
           hwid = Some ''A''\<rparr> \<and>
   fst (ValidateLicense (at_time 11) (with_token ''t2'') (ex_request ''LIC-1'' ''A'')
          (snd (ValidateLicense (at_time 10) (with_token ''t1'') (ex_request ''LIC-1'' ''A'')
             (ex_tokens [''t1'', ''t2'', ''t3''])))) =
     Inr \<lparr>Valid = True, Message = ''Authenticated''\<rparr> \<and>
   fst (ValidateLicense (at_time 12) (with_token ''t3'') (ex_request ''LIC-1'' ''B'')
          (snd (ValidateLicense (at_time 10) (with_token ''t1'') (ex_request ''LIC-1'' ''A'')
             (ex_tokens [''t1'', ''t2'', ''t3''])))) =
     Inr \<lparr>Valid = False, Message = ''HWID mismatch''\<rparr> \<and>
   license_of ''LIC-1'' ''PROD-A''
       (snd (ValidateLicense (at_time 12) (with_token ''t3'') (ex_request ''LIC-1'' ''B'')
          (snd (ValidateLicense (at_time 10) (with_token ''t1'') (ex_request ''LIC-1'' ''A'')
             (ex_tokens [''t1'', ''t2'', ''t3'']))))) =
     Some \<lparr>license_key = ''LIC-1'', product_id = ''PROD-A'', is_active = True,
           hwid = Some ''A''\<rparr>"
proof -
  let ?s = "ex_tokens [''t1'', ''t2'', ''t3'']"
  let ?req = "ex_request ''LIC-1'' ''A''"
  let ?row = "\<lparr>license_key = ''LIC-1'', product_id = ''PROD-A'', is_active = True,
      hwid = None\<rparr>"
  have tok: "presented_token (with_token ''t1'') = Some ''t1''"
    by (simp add: presented_token_def with_token_def md_Get_def)
  have burn: "fst (burnToken (at_time 10) ''t1'' ?s) = Inr ()"
    by (simp add: burnToken_def Exec_BurnToken_def live_match_def ex_defs)
  have look: "fault (at_time 10) (SelectLicense (vr_LicenseKey ?req) (vr_ProductId ?req)) = None"
    by (simp add: at_time_def)
  have row: "license_of (vr_LicenseKey ?req) (vr_ProductId ?req) ?s = Some ?row"
    by (simp add: license_of_def ex_defs)
  have active: "is_active ?row" by simp
  have supplied: "vr_Hwid ?req \<noteq> []" by (simp add: ex_request_def)
  from hwid_lock [OF tok burn look row active supplied]
  have first: "fst (ValidateLicense (at_time 10) (with_token ''t1'') ?req ?s) =
        Inr \<lparr>Valid = True, Message = ''Authenticated''\<rparr>"
    and locked: "license_of ''LIC-1'' ''PROD-A''
        (snd (ValidateLicense (at_time 10) (with_token ''t1'') ?req ?s)) =
        Some \<lparr>license_key = ''LIC-1'', product_id = ''PROD-A'', is_active = True,
           hwid = Some ''A''\<rparr>"
    by (simp_all add: ex_request_def at_time_def)
  have s1: "snd (ValidateLicense (at_time 10) (with_token ''t1'') ?req ?s) =
      ?s\<lparr>access_tokens := [\<lparr>token = ''t2'', created_at = 0, expires_at = 30\<rparr>,
                            \<lparr>token = ''t3'', created_at = 0, expires_at = 30\<rparr>],
          licenses := [\<lparr>license_key = ''LIC-1'', product_id = ''PROD-A'', is_active = True,
                        hwid = Some ''A''\<rparr>,
                       \<lparr>license_key = ''LIC-2'', product_id = ''PROD-A'', is_active = False,
                        hwid = None\<rparr>],
          issued := [BurnToken ''t1'', SelectLicense ''LIC-1'' ''PROD-A'',
                     SetHwid ''A'' ''LIC-1'']\<rparr>"
    by (simp add: ValidateLicense_def burnToken_def Exec_BurnToken_def live_match_def
        QueryRow_SelectLicense_def Exec_SetHwid_def set_hwid_def md_Get_def sent_def ex_defs)
  have second: "fst (ValidateLicense (at_time 11) (with_token ''t2'') ?req
      (snd (ValidateLicense (at_time 10) (with_token ''t1'') ?req ?s))) =
      Inr \<lparr>Valid = True, Message = ''Authenticated''\<rparr>"
    unfolding s1
    by (simp add: ValidateLicense_def burnToken_def Exec_BurnToken_def live_match_def
        QueryRow_SelectLicense_def Exec_SetHwid_def set_hwid_def md_Get_def sent_def ex_defs)
  have third: "ValidateLicense (at_time 12) (with_token ''t3'') (ex_request ''LIC-1'' ''B'')
      (snd (ValidateLicense (at_time 10) (with_token ''t1'') ?req ?s)) =
      (Inr \<lparr>Valid = False, Message = ''HWID mismatch''\<rparr>,
       ?s\<lparr>access_tokens := [\<lparr>token = ''t2'', created_at = 0, expires_at = 30\<rparr>],
          licenses := [\<lparr>license_key = ''LIC-1'', product_id = ''PROD-A'', is_active = True,
                        hwid = Some ''A''\<rparr>,
                       \<lparr>license_key = ''LIC-2'', product_id = ''PROD-A'', is_active = False,
                        hwid = None\<rparr>],
          issued := [BurnToken ''t1'', SelectLicense ''LIC-1'' ''PROD-A'',
                     SetHwid ''A'' ''LIC-1'', BurnToken ''t3'',
                     SelectLicense ''LIC-1'' ''PROD-A'']\<rparr>)"
    unfolding s1
    by (simp add: ValidateLicense_def burnToken_def Exec_BurnToken_def live_match_def
        QueryRow_SelectLicense_def Exec_SetHwid_def set_hwid_def md_Get_def sent_def ex_defs)
  have kept: "license_of ''LIC-1'' ''PROD-A''
       (snd (ValidateLicense (at_time 12) (with_token ''t3'') (ex_request ''LIC-1'' ''B'')
          (snd (ValidateLicense (at_time 10) (with_token ''t1'') ?req ?s)))) =
     Some \<lparr>license_key = ''LIC-1'', product_id = ''PROD-A'', is_active = True,
           hwid = Some ''A''\<rparr>"
    unfolding third by (simp add: license_of_def)
  from first locked second third kept show ?thesis by simp
qed

text \<open>
  Claim C5, as amended. For a ValidateLicense call that presents a token: an error of the
  store on the burn statement or on the license lookup is returned as Internal with message
  db error followed by the driver's error. An error of the store on the update that locks
  the hwid is discarded: the call answers valid true with message Authenticated, and table
  licenses is unchanged.
\<close>

theorem store_error_outcomes:
  assumes tok: "presented_token ctx = Some t"
  shows "(\<forall>err. fault e (BurnToken t) = Some err \<longrightarrow>
            fst (ValidateLicense e ctx req s) = Inl (Internal, ''db error: '' @ err)) \<and>
         (\<forall>err. fst (burnToken e t s) = Inr () \<and>
                fault e (SelectLicense (vr_LicenseKey req) (vr_ProductId req)) = Some err \<longrightarrow>
            fst (ValidateLicense e ctx req s) = Inl (Internal, ''db error: '' @ err)) \<and>
         (\<forall>err row. fst (burnToken e t s) = Inr () \<and>
                fault e (SelectLicense (vr_LicenseKey req) (vr_ProductId req)) = None \<and>
                license_of (vr_LicenseKey req) (vr_ProductId req) s = Some row \<and>
                is_active row \<and> vr_Hwid req \<noteq> [] \<and> (hwid row = None \<or> hwid row = Some []) \<and>
                fault e (SetHwid (vr_Hwid req) (vr_LicenseKey req)) = Some err \<longrightarrow>
            fst (ValidateLicense e ctx req s) =
              Inr \<lparr>Valid = True, Message = ''Authenticated''\<rparr> \<and>
            licenses (snd (ValidateLicense e ctx req s)) = licenses s)"
proof -
  have delete: "fst (ValidateLicense e ctx req s) = Inl (Internal, ''db error: '' @ err)"
    if "fault e (BurnToken t) = Some err" for err
  proof -
    from that have "fst (burnToken e t s) = Inl (Internal, ''db error: '' @ err)"
      by (simp add: burnToken_fault)
    from ValidateLicense_burn_failed [OF tok this] show ?thesis by simp
  qed
  have lookup: "fst (ValidateLicense e ctx req s) = Inl (Internal, ''db error: '' @ err)"
    if "fst (burnToken e t s) = Inr ()"
      and "fault e (SelectLicense (vr_LicenseKey req) (vr_ProductId req)) = Some err" for err
    using tok that by (rule ValidateLicense_lookup_failed)
  have update: "fst (ValidateLicense e ctx req s) =
        Inr \<lparr>Valid = True, Message = ''Authenticated''\<rparr> \<and>
      licenses (snd (ValidateLicense e ctx req s)) = licenses s"
    if burn: "fst (burnToken e t s) = Inr ()"
      and look: "fault e (SelectLicense (vr_LicenseKey req) (vr_ProductId req)) = None"
      and row: "license_of (vr_LicenseKey req) (vr_ProductId req) s = Some row"
      and rest: "is_active row" "vr_Hwid req \<noteq> []" "hwid row = None \<or> hwid row = Some []"
        "fault e (SetHwid (vr_Hwid req) (vr_LicenseKey req)) = Some err" for err row
    using rest burnToken_other_tables [of e t s]
    by (auto simp: ValidateLicense_found [OF tok burn look row] Let_def Exec_SetHwid_def sent_def)
  from delete lookup update show ?thesis by blast
qed

text \<open>
  Claim C5 as stated fails: the store fails the update that locks LIC-1 to A with error
  connection reset, and the call returns the response valid true, not an Internal error.
\<close>

theorem store_error_outcomes_counterexample:
  "fault (failing (SetHwid ''A'' ''LIC-1'') ''connection reset'' 10) (SetHwid ''A'' ''LIC-1'') =
     Some ''connection reset'' \<and>
   ValidateLicense (failing (SetHwid ''A'' ''LIC-1'') ''connection reset'' 10)
       (with_token ''t0'') (ex_request ''LIC-1'' ''A'') ex_store =
     (Inr \<lparr>Valid = True, Message = ''Authenticated''\<rparr>,
      ex_store\<lparr>access_tokens := [],
        issued := [BurnToken ''t0'', SelectLicense ''LIC-1'' ''PROD-A'', SetHwid ''A'' ''LIC-1'']\<rparr>)"
  by (simp add: ValidateLicense_def burnToken_def Exec_BurnToken_def live_match_def
      QueryRow_SelectLicense_def Exec_SetHwid_def md_Get_def sent_def ex_defs)

text \<open>
  An instance of C5 as amended: the store fails the license lookup with error timeout.
\<close>

theorem store_error_outcomes_witness:
  "fst (burnToken (failing (SelectLicense ''LIC-1'' ''PROD-A'') ''timeout'' 10) ''t0'' ex_store) =
     Inr () \<and>
   fst (ValidateLicense (failing (SelectLicense ''LIC-1'' ''PROD-A'') ''timeout'' 10)
          (with_token ''t0'') (ex_request ''LIC-1'' ''A'') ex_store) =
     Inl (Internal, ''db error: timeout'')"
proof -
  let ?e = "failing (SelectLicense ''LIC-1'' ''PROD-A'') ''timeout'' 10"
  have tok: "presented_token (with_token ''t0'') = Some ''t0''"
    by (simp add: presented_token_def with_token_def md_Get_def)
  have burn: "fst (burnToken ?e ''t0'' ex_store) = Inr ()"
    by (simp add: burnToken_def Exec_BurnToken_def live_match_def ex_defs)
  have look: "fault ?e (SelectLicense (vr_LicenseKey (ex_request ''LIC-1'' ''A''))
      (vr_ProductId (ex_request ''LIC-1'' ''A''))) = Some ''timeout''"
    by (simp add: ex_defs)
  from store_error_outcomes [OF tok, of ?e "ex_request ''LIC-1'' ''A''" ex_store] burn look
  have "fst (ValidateLicense ?e (with_token ''t0'') (ex_request ''LIC-1'' ''A'') ex_store) =
      Inl (Internal, ''db error: '' @ ''timeout'')"
    by blast
  with burn show ?thesis by simp
qed

section \<open>Issuing a token\<close>

lemma key_valid_iff:
  "list_ex (key_valid e k) rows =
   (\<exists>r \<in> set rows. key r = k \<and>
      (key_expires_at r = None \<or> (\<exists>x. key_expires_at r = Some x \<and> now e < x)))"
  by (auto simp: list_ex_iff key_valid_def split: option.splits)

text \<open>
  Claim C6. GetAuthToken with an empty API key fails with InvalidArgument and leaves the
  store as it was. With a non-empty key that no row of api_keys matches with an expiry that
  is NULL or in the future, it fails with Unauthenticated and inserts no token. With a key
  that such a row matches, the store executing both statements and generating an identifier
  the table does not hold, it appends one row with that identifier, created now and
  expiring 30 seconds later, and returns the identifier with ExpiresInSeconds 30. Whenever
  the call succeeds, the response carries 30, the identifier is new to the table and exactly
  that one row was appended.
\<close>

theorem GetAuthToken_cases:
  "(ApiKey req = [] \<longrightarrow>
      GetAuthToken e req s = (Inl (InvalidArgument, ''API Key required''), s)) \<and>
   (ApiKey req \<noteq> [] \<and> fault e (ApiKeyExists (ApiKey req)) = None \<and>
    \<not> (\<exists>r \<in> set (api_keys s). key r = ApiKey req \<and>
          (key_expires_at r = None \<or> (\<exists>x. key_expires_at r = Some x \<and> now e < x))) \<longrightarrow>
      fst (GetAuthToken e req s) = Inl (Unauthenticated, ''Invalid or Expired API Key'') \<and>
      access_tokens (snd (GetAuthToken e req s)) = access_tokens s) \<and>
   (ApiKey req \<noteq> [] \<and> fault e (ApiKeyExists (ApiKey req)) = None \<and>
    (\<exists>r \<in> set (api_keys s). key r = ApiKey req \<and>
          (key_expires_at r = None \<or> (\<exists>x. key_expires_at r = Some x \<and> now e < x))) \<and>
    fault e InsertToken = None \<and> gen_token e \<notin> set (map token (access_tokens s)) \<longrightarrow>
      fst (GetAuthToken e req s) = Inr \<lparr>Token = gen_token e, ExpiresInSeconds = 30\<rparr> \<and>
      access_tokens (snd (GetAuthToken e req s)) =
        access_tokens s @
          [\<lparr>token = gen_token e, created_at = now e, expires_at = now e + 30\<rparr>]) \<and>
   (\<forall>resp. fst (GetAuthToken e req s) = Inr resp \<longrightarrow>
      ExpiresInSeconds resp = 30 \<and> Token resp \<notin> set (map token (access_tokens s)) \<and>
      access_tokens (snd (GetAuthToken e req s)) =
        access_tokens s @
          [\<lparr>token = Token resp, created_at = now e, expires_at = now e + 30\<rparr>])"
proof -
  have empty: "GetAuthToken e req s = (Inl (InvalidArgument, ''API Key required''), s)"
    if "ApiKey req = []"
    using that by (simp add: GetAuthToken_def)
  have unknown: "fst (GetAuthToken e req s) = Inl (Unauthenticated, ''Invalid or Expired API Key'') \<and>
      access_tokens (snd (GetAuthToken e req s)) = access_tokens s"
    if "ApiKey req \<noteq> []" "fault e (ApiKeyExists (ApiKey req)) = None"
      "\<not> list_ex (key_valid e (ApiKey req)) (api_keys s)"
    using that by (simp add: GetAuthToken_def QueryRow_ApiKeyExists_def sent_def)
  have issue: "fst (GetAuthToken e req s) = Inr \<lparr>Token = gen_token e, ExpiresInSeconds = 30\<rparr> \<and>
      access_tokens (snd (GetAuthToken e req s)) = access_tokens s @ [new_token_row e]"
    if "ApiKey req \<noteq> []" "fault e (ApiKeyExists (ApiKey req)) = None"
      "list_ex (key_valid e (ApiKey req)) (api_keys s)"
      "fault e InsertToken = None" "gen_token e \<notin> set (map token (access_tokens s))"
    using that
    by (simp add: GetAuthToken_def QueryRow_ApiKeyExists_def QueryRow_InsertToken_def sent_def)
  have any: "ExpiresInSeconds resp = 30 \<and> Token resp \<notin> set (map token (access_tokens s)) \<and>
      access_tokens (snd (GetAuthToken e req s)) =
        access_tokens s @ [\<lparr>token = Token resp, created_at = now e, expires_at = now e + 30\<rparr>]"
    if "fst (GetAuthToken e req s) = Inr resp" for resp
    using GetAuthToken_ok [OF that] by (simp add: new_token_row_def)
  from empty unknown issue any show ?thesis
    unfolding key_valid_iff new_token_row_def by blast
qed

text \<open>
  An instance of C6: the empty key, an unknown key and the valid key of the example store.
\<close>

theorem GetAuthToken_cases_witness:
  "GetAuthToken (at_time 10) \<lparr>ApiKey = []\<rparr> ex_store =
     (Inl (InvalidArgument, ''API Key required''), ex_store) \<and>
   fst (GetAuthToken (at_time 10) \<lparr>ApiKey = ''other-key''\<rparr> ex_store) =
     Inl (Unauthenticated, ''Invalid or Expired API Key'') \<and>
   fst (GetAuthToken (at_time 10) \<lparr>ApiKey = ''valid-key''\<rparr> ex_store) =
     Inr \<lparr>Token = ''t1'', ExpiresInSeconds = 30\<rparr> \<and>
   access_tokens (snd (GetAuthToken (at_time 10) \<lparr>ApiKey = ''valid-key''\<rparr> ex_store)) =
     [\<lparr>token = ''t0'', created_at = 0, expires_at = 30\<rparr>,
      \<lparr>token = ''t1'', created_at = 10, expires_at = 40\<rparr>]"
proof -
  have empty: "GetAuthToken (at_time 10) \<lparr>ApiKey = []\<rparr> ex_store =
      (Inl (InvalidArgument, ''API Key required''), ex_store)"
    using GetAuthToken_cases [of "\<lparr>ApiKey = []\<rparr>" "at_time 10" ex_store] by simp
  have other: "fst (GetAuthToken (at_time 10) \<lparr>ApiKey = ''other-key''\<rparr> ex_store) =
      Inl (Unauthenticated, ''Invalid or Expired API Key'')"
    using GetAuthToken_cases [of "\<lparr>ApiKey = ''other-key''\<rparr>" "at_time 10" ex_store]
    by (simp add: ex_defs)
  have valid: "fst (GetAuthToken (at_time 10) \<lparr>ApiKey = ''valid-key''\<rparr> ex_store) =
        Inr \<lparr>Token = ''t1'', ExpiresInSeconds = 30\<rparr> \<and>
      access_tokens (snd (GetAuthToken (at_time 10) \<lparr>ApiKey = ''valid-key''\<rparr> ex_store)) =
        [\<lparr>token = ''t0'', created_at = 0, expires_at = 30\<rparr>,
         \<lparr>token = ''t1'', created_at = 10, expires_at = 40\<rparr>]"
    using GetAuthToken_cases [of "\<lparr>ApiKey = ''valid-key''\<rparr>" "at_time 10" ex_store]
    by (simp add: ex_defs)
  from empty other valid show ?thesis by simp
qed

section \<open>The upsert of a license\<close>

lemma overwrite_twice:
  "overwrite k p2 a2 (overwrite k p1 a1 r) = overwrite k p2 a2 r"
  by (simp add: overwrite_def)

lemma license_key_overwrite: "license_key (overwrite k p a r) = license_key r"
  by (simp add: overwrite_def)

lemma list_ex_overwrite:
  "list_ex (\<lambda>r. license_key r = k) (map (overwrite k' p a) rows) =
   list_ex (\<lambda>r. license_key r = k) rows"
  by (induction rows) (simp_all add: license_key_overwrite)

lemma upsert_rows_twice:
  "upsert_rows k p2 a2 (upsert_rows k p1 a1 rows) = upsert_rows k p2 a2 rows"
proof (cases "list_ex (\<lambda>r. license_key r = k) rows")
  case True
  then have "list_ex (\<lambda>r. license_key r = k) (map (overwrite k p1 a1) rows)"
    by (simp add: list_ex_overwrite)
  with True show ?thesis
    by (simp add: upsert_rows_def overwrite_twice comp_def)
next
  case False
  then have "map (overwrite k p2 a2) rows = rows"
    by (auto simp: list_ex_iff overwrite_def intro: map_idI)
  with False show ?thesis
    by (simp add: upsert_rows_def overwrite_def)
qed

lemma UpdateLicense_run:
  assumes "checkAdmin e ctx = None"
    and "fault e (UpsertLicense (ur_LicenseKey req) (ur_ProductId req) (ur_IsActive req)) = None"
  shows "UpdateLicense e ctx req s =
     (Inr (), sent (UpsertLicense (ur_LicenseKey req) (ur_ProductId req) (ur_IsActive req))
        (s\<lparr>licenses :=
             upsert_rows (ur_LicenseKey req) (ur_ProductId req) (ur_IsActive req) (licenses s)\<rparr>))"
  using assms by (simp add: UpdateLicense_def Exec_UpsertLicense_def)

text \<open>
  Claim C7. UpdateLicense by an admin on a license key the table holds, the store executing the
  statement: the call succeeds, the rows with this key get the supplied product id and
  active flag, every other row is unchanged, and no row's hwid or license key changes. A
  second such call with the same key leaves the table as the second call alone would: the
  rows with this key carry the values of the latest call.
\<close>

theorem UpdateLicense_overwrites:
  assumes admin: "checkAdmin e ctx = None"
    and exec: "fault e (UpsertLicense (ur_LicenseKey req) (ur_ProductId req) (ur_IsActive req)) =
      None"
    and exists: "ur_LicenseKey req \<in> set (map license_key (licenses s))"
  shows "fst (UpdateLicense e ctx req s) = Inr () \<and>
         licenses (snd (UpdateLicense e ctx req s)) =
           map (\<lambda>r. if license_key r = ur_LicenseKey req
                    then r\<lparr>product_id := ur_ProductId req, is_active := ur_IsActive req\<rparr>
                    else r) (licenses s) \<and>
         map hwid (licenses (snd (UpdateLicense e ctx req s))) = map hwid (licenses s) \<and>
         map license_key (licenses (snd (UpdateLicense e ctx req s))) =
           map license_key (licenses s) \<and>
         (\<forall>e2 ctx2 req2.
            checkAdmin e2 ctx2 = None \<and>
            fault e2 (UpsertLicense (ur_LicenseKey req2) (ur_ProductId req2) (ur_IsActive req2)) =
              None \<and>
            ur_LicenseKey req2 = ur_LicenseKey req \<longrightarrow>
            licenses (snd (UpdateLicense e2 ctx2 req2 (snd (UpdateLicense e ctx req s)))) =
              map (\<lambda>r. if license_key r = ur_LicenseKey req
                       then r\<lparr>product_id := ur_ProductId req2, is_active := ur_IsActive req2\<rparr>
                       else r) (licenses s))"
proof -
  let ?k = "ur_LicenseKey req"
  have ov: "overwrite ?k p a =
      (\<lambda>r. if license_key r = ?k then r\<lparr>product_id := p, is_active := a\<rparr> else r)" for p a
    by (rule ext) (simp add: overwrite_def)
  from exists have ex: "list_ex (\<lambda>r. license_key r = ?k) (licenses s)"
    by (auto simp: list_ex_iff)
  then have up: "upsert_rows ?k p a (licenses s) = map (overwrite ?k p a) (licenses s)" for p a
    by (simp add: upsert_rows_def)
  note run = UpdateLicense_run [OF admin exec]
  have res: "fst (UpdateLicense e ctx req s) = Inr ()"
    by (simp add: run)
  have rows: "licenses (snd (UpdateLicense e ctx req s)) =
      map (overwrite ?k (ur_ProductId req) (ur_IsActive req)) (licenses s)"
    by (simp add: run sent_def up)
  have hw: "map hwid (licenses (snd (UpdateLicense e ctx req s))) = map hwid (licenses s)"
    unfolding rows by (simp add: overwrite_def comp_def)
  have keys: "map license_key (licenses (snd (UpdateLicense e ctx req s))) =
      map license_key (licenses s)"
    unfolding rows by (simp add: overwrite_def comp_def)
  have latest: "licenses (snd (UpdateLicense e2 ctx2 req2 (snd (UpdateLicense e ctx req s)))) =
      map (overwrite ?k (ur_ProductId req2) (ur_IsActive req2)) (licenses s)"
    if a2: "checkAdmin e2 ctx2 = None"
      and f2: "fault e2 (UpsertLicense (ur_LicenseKey req2) (ur_ProductId req2)
        (ur_IsActive req2)) = None"
      and k2: "ur_LicenseKey req2 = ?k" for e2 ctx2 req2
  proof -
    have "licenses (snd (UpdateLicense e2 ctx2 req2 (snd (UpdateLicense e ctx req s)))) =
        upsert_rows ?k (ur_ProductId req2) (ur_IsActive req2)
          (upsert_rows ?k (ur_ProductId req) (ur_IsActive req) (licenses s))"
      by (simp add: UpdateLicense_run [OF a2 f2] run sent_def k2)
    then show ?thesis unfolding upsert_rows_twice by (simp add: up)
  qed
  from res rows hw keys latest show ?thesis
    unfolding ov by blast
qed

text \<open>
  An instance of C7: LIC-1, locked to A, set inactive and then active again.
\<close>

theorem UpdateLicense_overwrites_witness:
  "licenses (snd (UpdateLicense (at_time 10) (with_secret [[]])
       \<lparr>ur_LicenseKey = ''LIC-1'', ur_ProductId = ''PROD-B'', ur_IsActive = False\<rparr>
       (ex_store\<lparr>licenses := [\<lparr>license_key = ''LIC-1'', product_id = ''PROD-A'',
                                 is_active = True, hwid = Some ''A''\<rparr>]\<rparr>))) =
     [\<lparr>license_key = ''LIC-1'', product_id = ''PROD-B'', is_active = False, hwid = Some ''A''\<rparr>] \<and>
   licenses (snd (UpdateLicense (at_time 11) (with_secret [[]])
       \<lparr>ur_LicenseKey = ''LIC-1'', ur_ProductId = ''PROD-B'', ur_IsActive = True\<rparr>
       (snd (UpdateLicense (at_time 10) (with_secret [[]])
          \<lparr>ur_LicenseKey = ''LIC-1'', ur_ProductId = ''PROD-B'', ur_IsActive = False\<rparr>
          (ex_store\<lparr>licenses := [\<lparr>license_key = ''LIC-1'', product_id = ''PROD-A'',
                                    is_active = True, hwid = Some ''A''\<rparr>]\<rparr>))))) =
     [\<lparr>license_key = ''LIC-1'', product_id = ''PROD-B'', is_active = True, hwid = Some ''A''\<rparr>]"
proof -
  let ?s = "ex_store\<lparr>licenses := [\<lparr>license_key = ''LIC-1'', product_id = ''PROD-A'',
      is_active = True, hwid = Some ''A''\<rparr>]\<rparr>"
  let ?off = "\<lparr>ur_LicenseKey = ''LIC-1'', ur_ProductId = ''PROD-B'', ur_IsActive = False\<rparr>"
  let ?on = "\<lparr>ur_LicenseKey = ''LIC-1'', ur_ProductId = ''PROD-B'', ur_IsActive = True\<rparr>"
  have admin: "checkAdmin (at_time n) (with_secret [[]]) = None" for n
    by (simp add: checkAdmin_def md_Get_def os_Getenv_def ex_defs)
  have exec: "fault (at_time 10) (UpsertLicense (ur_LicenseKey ?off) (ur_ProductId ?off)
      (ur_IsActive ?off)) = None"
    by (simp add: at_time_def)
  have exists: "ur_LicenseKey ?off \<in> set (map license_key (licenses ?s))"
    by simp
  note all = UpdateLicense_overwrites [OF admin exec exists]
  from all have first: "licenses (snd (UpdateLicense (at_time 10) (with_secret [[]]) ?off ?s)) =
      [\<lparr>license_key = ''LIC-1'', product_id = ''PROD-B'', is_active = False,
        hwid = Some ''A''\<rparr>]"
    by simp
  from all have "checkAdmin (at_time 11) (with_secret [[]]) = None \<and>
      fault (at_time 11) (UpsertLicense (ur_LicenseKey ?on) (ur_ProductId ?on)
        (ur_IsActive ?on)) = None \<and> ur_LicenseKey ?on = ur_LicenseKey ?off \<longrightarrow>
      licenses (snd (UpdateLicense (at_time 11) (with_secret [[]]) ?on
        (snd (UpdateLicense (at_time 10) (with_secret [[]]) ?off ?s)))) =
      map (\<lambda>r. if license_key r = ur_LicenseKey ?off
                then r\<lparr>product_id := ur_ProductId ?on, is_active := ur_IsActive ?on\<rparr>
                else r) (licenses ?s)"
    by blast
  with admin have second: "licenses (snd (UpdateLicense (at_time 11) (with_secret [[]]) ?on
        (snd (UpdateLicense (at_time 10) (with_secret [[]]) ?off ?s)))) =
      [\<lparr>license_key = ''LIC-1'', product_id = ''PROD-B'', is_active = True,
        hwid = Some ''A''\<rparr>]"
    by (simp add: at_time_def)
  from first second show ?thesis by simp
qed

section \<open>The two versions of the service\<close>

lemma checkAdmin_v1_eq: "checkAdmin_v1 e ctx = checkAdmin e ctx"
  by (simp add: checkAdmin_v1_def checkAdmin_def)

lemma ValidateLicense_versions:
  "snd (ValidateLicense_v1 e ctx req s) = snd (ValidateLicense e ctx req s) \<and>
   (fst (ValidateLicense_v1 e ctx req s) = fst (ValidateLicense e ctx req s) \<or>
    fst (ValidateLicense_v1 e ctx req s) =
      Inr \<lparr>Valid = False, Message = ''License is banned or inactive''\<rparr> \<and>
    fst (ValidateLicense e ctx req s) =
      Inr \<lparr>Valid = False, Message = ''License is suspended''\<rparr>)"
proof (cases ctx)
  case None
  then show ?thesis by (simp add: ValidateLicense_v1_def ValidateLicense_def)
next
  case (Some md)
  show ?thesis
  proof (cases "md_Get md ''x-access-token''")
    case Nil
    with Some show ?thesis by (simp add: ValidateLicense_v1_def ValidateLicense_def)
  next
    case (Cons t rest)
    obtain r1 s1 where b: "Exec_BurnToken e t s = (r1, s1)" by (cases "Exec_BurnToken e t s")
    obtain r2 s2 where q: "QueryRow_SelectLicense e (vr_LicenseKey req) (vr_ProductId req) s1 =
        (r2, s2)"
      by (cases "QueryRow_SelectLicense e (vr_LicenseKey req) (vr_ProductId req) s1")
    from Some Cons b q show ?thesis
      by (auto simp: ValidateLicense_v1_def ValidateLicense_def burnToken_def
          split: sum.splits option.splits)
  qed
qed

lemma UpdateLicense_versions:
  "snd (UpdateLicense_v1 e ctx req s) = snd (UpdateLicense e ctx req s) \<and>
   (fst (UpdateLicense_v1 e ctx req s) = fst (UpdateLicense e ctx req s) \<or>
    (\<exists>err. fst (UpdateLicense_v1 e ctx req s) = Inl (Internal, ''failed to upsert: '' @ err) \<and>
           fst (UpdateLicense e ctx req s) = Inl (Internal, ''upsert failed: '' @ err)))"
  by (auto simp: UpdateLicense_v1_def UpdateLicense_def checkAdmin_v1_eq Exec_UpsertLicense_def
      split: option.splits)

lemma DeleteLicense_versions:
  "snd (DeleteLicense_v1 e ctx req s) = snd (DeleteLicense e ctx req s) \<and>
   (fst (DeleteLicense_v1 e ctx req s) = fst (DeleteLicense e ctx req s) \<or>
    (\<exists>err. fst (DeleteLicense_v1 e ctx req s) = Inl (Internal, ''failed to delete: '' @ err) \<and>
           fst (DeleteLicense e ctx req s) = Inl (Internal, ''delete failed: '' @ err)))"
  by (auto simp: DeleteLicense_v1_def DeleteLicense_def checkAdmin_v1_eq Exec_DeleteLicenseRow_def
      split: option.splits)

lemma GetAuthToken_versions:
  assumes "ApiKey req \<noteq> []" and "fault e (ApiKeyExists (ApiKey req)) = None"
    and "list_ex (key_valid e (ApiKey req)) (api_keys s)"
  shows "fst (GetAuthToken e req s) = fst (GetAuthToken_v1 e s) \<and>
         access_tokens (snd (GetAuthToken e req s)) = access_tokens (snd (GetAuthToken_v1 e s))"
  using assms
  by (auto simp: GetAuthToken_def GetAuthToken_v1_def QueryRow_ApiKeyExists_def
      QueryRow_InsertToken_def sent_def split: option.splits)

text \<open>
  Claim C8, as amended. On every input the two versions of ValidateLicense, UpdateLicense and
  DeleteLicense leave the same store (tables and statements sent) and return the same
  result, up to three message texts: the response for an inactive license (License is
  banned or inactive in the earlier version, License is suspended in the later one) and the
  prefix of the Internal error of UpdateLicense and of DeleteLicense. When the API key is
  valid and the store executes the key check, GetAuthToken returns what the earlier version
  returns and inserts the same row.
\<close>

theorem versions_agree:
  "snd (ValidateLicense_v1 e ctx vreq s) = snd (ValidateLicense e ctx vreq s) \<and>
   (fst (ValidateLicense_v1 e ctx vreq s) = fst (ValidateLicense e ctx vreq s) \<or>
    fst (ValidateLicense_v1 e ctx vreq s) =
      Inr \<lparr>Valid = False, Message = ''License is banned or inactive''\<rparr> \<and>
    fst (ValidateLicense e ctx vreq s) =
      Inr \<lparr>Valid = False, Message = ''License is suspended''\<rparr>) \<and>
   snd (UpdateLicense_v1 e ctx ureq s) = snd (UpdateLicense e ctx ureq s) \<and>
   (fst (UpdateLicense_v1 e ctx ureq s) = fst (UpdateLicense e ctx ureq s) \<or>
    (\<exists>err. fst (UpdateLicense_v1 e ctx ureq s) = Inl (Internal, ''failed to upsert: '' @ err) \<and>
           fst (UpdateLicense e ctx ureq s) = Inl (Internal, ''upsert failed: '' @ err))) \<and>
   snd (DeleteLicense_v1 e ctx dreq s) = snd (DeleteLicense e ctx dreq s) \<and>
   (fst (DeleteLicense_v1 e ctx dreq s) = fst (DeleteLicense e ctx dreq s) \<or>
    (\<exists>err. fst (DeleteLicense_v1 e ctx dreq s) = Inl (Internal, ''failed to delete: '' @ err) \<and>
           fst (DeleteLicense e ctx dreq s) = Inl (Internal, ''delete failed: '' @ err))) \<and>
   (ApiKey greq \<noteq> [] \<and> fault e (ApiKeyExists (ApiKey greq)) = None \<and>
    (\<exists>r \<in> set (api_keys s). key r = ApiKey greq \<and>
          (key_expires_at r = None \<or> (\<exists>x. key_expires_at r = Some x \<and> now e < x))) \<longrightarrow>
      fst (GetAuthToken e greq s) = fst (GetAuthToken_v1 e s) \<and>
      access_tokens (snd (GetAuthToken e greq s)) = access_tokens (snd (GetAuthToken_v1 e s)))"
  using ValidateLicense_versions [of e ctx vreq s] UpdateLicense_versions [of e ctx ureq s]
    DeleteLicense_versions [of e ctx dreq s] GetAuthToken_versions [of greq e s]
  unfolding key_valid_iff by blast

text \<open>
  Claim C8 as stated fails: for the inactive license LIC-2 the two versions of
  ValidateLicense return responses with different messages.
\<close>

theorem versions_agree_counterexample:
  "fst (ValidateLicense_v1 (at_time 10) (with_token ''t0'') (ex_request ''LIC-2'' []) ex_store) =
     Inr \<lparr>Valid = False, Message = ''License is banned or inactive''\<rparr> \<and>
   fst (ValidateLicense (at_time 10) (with_token ''t0'') (ex_request ''LIC-2'' []) ex_store) =
     Inr \<lparr>Valid = False, Message = ''License is suspended''\<rparr> \<and>
   fst (ValidateLicense_v1 (at_time 10) (with_token ''t0'') (ex_request ''LIC-2'' []) ex_store) \<noteq>
   fst (ValidateLicense (at_time 10) (with_token ''t0'') (ex_request ''LIC-2'' []) ex_store)"
  by (simp add: ValidateLicense_v1_def ValidateLicense_def burnToken_def Exec_BurnToken_def
      live_match_def QueryRow_SelectLicense_def md_Get_def sent_def ex_defs)

text \<open>
  An instance of C8 as amended: the active license LIC-1 and the valid API key.
\<close>

theorem versions_agree_witness:
  "ValidateLicense_v1 (at_time 10) (with_token ''t0'') (ex_request ''LIC-1'' ''A'') ex_store =
     ValidateLicense (at_time 10) (with_token ''t0'') (ex_request ''LIC-1'' ''A'') ex_store \<and>
   fst (ValidateLicense (at_time 10) (with_token ''t0'') (ex_request ''LIC-1'' ''A'') ex_store) =
     Inr \<lparr>Valid = True, Message = ''Authenticated''\<rparr> \<and>
   fst (GetAuthToken (at_time 10) \<lparr>ApiKey = ''valid-key''\<rparr> ex_store) =
     fst (GetAuthToken_v1 (at_time 10) ex_store)"
proof -
  have v2: "fst (ValidateLicense (at_time 10) (with_token ''t0'') (ex_request ''LIC-1'' ''A'')
      ex_store) = Inr \<lparr>Valid = True, Message = ''Authenticated''\<rparr>"
    by (simp add: ValidateLicense_def burnToken_def Exec_BurnToken_def live_match_def
        QueryRow_SelectLicense_def md_Get_def sent_def ex_defs)
  have key: "ApiKey \<lparr>ApiKey = ''valid-key''\<rparr> \<noteq> [] \<and>
      fault (at_time 10) (ApiKeyExists (ApiKey \<lparr>ApiKey = ''valid-key''\<rparr>)) = None \<and>
      (\<exists>r \<in> set (api_keys ex_store). key r = ApiKey \<lparr>ApiKey = ''valid-key''\<rparr> \<and>
          (key_expires_at r = None \<or>
           (\<exists>x. key_expires_at r = Some x \<and> now (at_time 10) < x)))"
    by (simp add: ex_defs)
  note all = versions_agree [of "at_time 10" "with_token ''t0''" "ex_request ''LIC-1'' ''A''"
      ex_store _ _ "\<lparr>ApiKey = ''valid-key''\<rparr>"]
  from all v2 have same: "ValidateLicense_v1 (at_time 10) (with_token ''t0'')
      (ex_request ''LIC-1'' ''A'') ex_store =
      ValidateLicense (at_time 10) (with_token ''t0'') (ex_request ''LIC-1'' ''A'') ex_store"
    by (simp add: prod_eq_iff)
  from all key have issue: "fst (GetAuthToken (at_time 10) \<lparr>ApiKey = ''valid-key''\<rparr> ex_store) =
      fst (GetAuthToken_v1 (at_time 10) ex_store)"
    by blast
  from same v2 issue show ?thesis by simp
qed

section \<open>The background sweep\<close>

text \<open>
  A tick of the sweep deletes no row that a burn could still delete, now or later.
\<close>

lemma sweep_keeps_redeemable:
  assumes "now e \<le> now e'"
  shows "redeemable e' (cleanupExpiredTokens_tick e s) t = redeemable e' s t"
proof -
  have "live_match e' t r \<Longrightarrow> \<not> expires_at r < now e" for r
    using assms by (simp add: live_match_def)
  then show ?thesis
    by (auto simp: redeemable_def cleanupExpiredTokens_tick_def Exec_SweepExpired_def sent_def
        list_ex_iff split: option.splits)
qed

lemma sweep_keeps_licenses:
  "licenses (cleanupExpiredTokens_tick e s) = licenses s \<and>
   api_keys (cleanupExpiredTokens_tick e s) = api_keys s"
  by (simp add: cleanupExpiredTokens_tick_def Exec_SweepExpired_def sent_def split: option.splits)

section \<open>Callers presenting one token at the same time\<close>

lemma burn_removes_unique_token:
  assumes uniq: "distinct (map token rows)"
    and live: "list_ex (live_match e t) rows"
  shows "\<forall>r \<in> set (filter (\<lambda>r. \<not> live_match e t r) rows). token r \<noteq> t"
proof
  fix r assume r: "r \<in> set (filter (\<lambda>r. \<not> live_match e t r) rows)"
  from live obtain w where w: "w \<in> set rows" "live_match e t w"
    by (auto simp: list_ex_iff)
  from uniq have inj: "inj_on token (set rows)" by (simp add: distinct_map)
  show "token r \<noteq> t"
  proof
    assume "token r = t"
    with w have "token r = token w" by (simp add: live_match_def)
    with inj r w(1) have "r = w" by (auto dest: inj_onD)
    with r w(2) show False by simp
  qed
qed

lemma burn_seq_absent:
  assumes "\<forall>r \<in> set (access_tokens s). token r \<noteq> t"
    and "\<forall>e \<in> set es. fault e (BurnToken t) = None"
  shows "fst (burn_seq es t s) =
           replicate (length es) (Inl (Unauthenticated, ''invalid or expired access token'')) \<and>
         issued (snd (burn_seq es t s)) = issued s @ replicate (length es) (BurnToken t)"
  using assms
proof (induction es arbitrary: s)
  case Nil
  then show ?case by simp
next
  case (Cons e es)
  obtain r s1 where b: "burnToken e t s = (r, s1)" by (cases "burnToken e t s")
  from Cons.prems have exec: "fault e (BurnToken t) = None" by simp
  from Cons.prems(1) have none: "filter (live_match e t) (access_tokens s) = []"
    by (auto simp: filter_empty_conv live_match_def)
  from b exec none have r: "r = Inl (Unauthenticated, ''invalid or expired access token'')"
    using burnToken_result [OF exec, of s] by simp
  from b have rows: "access_tokens s1 = filter (\<lambda>r. \<not> live_match e t r) (access_tokens s)"
    using burnToken_tables [OF exec, of s] by simp
  from b have log: "issued s1 = issued s @ [BurnToken t]"
    using burnToken_issued [of e t s] by simp
  from rows Cons.prems(1) have absent: "\<forall>r \<in> set (access_tokens s1). token r \<noteq> t" by simp
  from Cons.prems(2) have rest: "\<forall>e \<in> set es. fault e (BurnToken t) = None" by simp
  from Cons.IH [OF absent rest] b r log show ?case
    by (simp add: split_beta replicate_append_same)
qed

text \<open>
  Claim C3. N callers present the same token at the same time; the store serves their burn
  statements in some order, the list of the callers' environments. On a table whose tokens
  are unique, when the token can be redeemed as the first statement is served and the store
  executes every statement, the caller served first succeeds and every other caller fails
  with Unauthenticated: exactly one success and N - 1 failures, whatever the order and
  whatever the callers' clocks, and nothing but the N burn statements reaches the store.
\<close>

theorem concurrent_burns_one_winner:
  assumes uniq: "unique_tokens s"
    and live: "redeemable e1 s t"
    and exec: "\<forall>e \<in> set (e1 # rest). fault e (BurnToken t) = None"
  shows "fst (burn_seq (e1 # rest) t s) =
           Inr () # replicate (length rest)
             (Inl (Unauthenticated, ''invalid or expired access token'')) \<and>
         length (filter (\<lambda>r. r = Inr ()) (fst (burn_seq (e1 # rest) t s))) = 1 \<and>
         length (filter (\<lambda>r. r = Inl (Unauthenticated, ''invalid or expired access token''))
                   (fst (burn_seq (e1 # rest) t s))) = length (e1 # rest) - 1 \<and>
         issued (snd (burn_seq (e1 # rest) t s)) =
           issued s @ replicate (length (e1 # rest)) (BurnToken t)"
proof -
  obtain r s1 where b: "burnToken e1 t s = (r, s1)" by (cases "burnToken e1 t s")
  from exec have f1: "fault e1 (BurnToken t) = None" by simp
  from live have some: "filter (live_match e1 t) (access_tokens s) \<noteq> []"
    by (auto simp: redeemable_def list_ex_iff filter_empty_conv)
  from b some have r: "r = Inr ()"
    using burnToken_result [OF f1, of s] by simp
  from b have rows: "access_tokens s1 = filter (\<lambda>r. \<not> live_match e1 t r) (access_tokens s)"
    using burnToken_tables [OF f1, of s] by simp
  from b have log: "issued s1 = issued s @ [BurnToken t]"
    using burnToken_issued [of e1 t s] by simp
  have absent: "\<forall>r \<in> set (access_tokens s1). token r \<noteq> t"
    unfolding rows
    using uniq live unfolding unique_tokens_def redeemable_def
    by (rule burn_removes_unique_token)
  from exec have rest: "\<forall>e \<in> set rest. fault e (BurnToken t) = None" by simp
  note later = burn_seq_absent [OF absent rest]
  from later b r have results: "fst (burn_seq (e1 # rest) t s) =
      Inr () # replicate (length rest)
        (Inl (Unauthenticated, ''invalid or expired access token''))"
    by (simp add: split_beta)
  from later b log have sent_all: "issued (snd (burn_seq (e1 # rest) t s)) =
      issued s @ replicate (length (e1 # rest)) (BurnToken t)"
    by (simp add: split_beta replicate_append_same)
  have one: "length (filter (\<lambda>r. r = Inr ()) (fst (burn_seq (e1 # rest) t s))) = 1"
    unfolding results by simp
  have others: "length (filter (\<lambda>r. r = Inl (Unauthenticated, ''invalid or expired access token''))
      (fst (burn_seq (e1 # rest) t s))) = length (e1 # rest) - 1"
    unfolding results by simp
  from results one others sent_all show ?thesis by blast
qed

text \<open>
  An instance of C3: three callers present token t0 of the example store.
\<close>

theorem concurrent_burns_one_winner_witness:
  "unique_tokens ex_store \<and> redeemable (at_time 10) ex_store ''t0'' \<and>
   fst (burn_seq [at_time 10, at_time 10, at_time 11] ''t0'' ex_store) =
     [Inr (), Inl (Unauthenticated, ''invalid or expired access token''),
      Inl (Unauthenticated, ''invalid or expired access token'')] \<and>
   issued (snd (burn_seq [at_time 10, at_time 10, at_time 11] ''t0'' ex_store)) =
     [BurnToken ''t0'', BurnToken ''t0'', BurnToken ''t0'']"
proof -
  have uniq: "unique_tokens ex_store"
    by (simp add: unique_tokens_def ex_store_def)
  have live: "redeemable (at_time 10) ex_store ''t0''"
    by (simp add: redeemable_def live_match_def ex_defs)
  have exec: "\<forall>e \<in> set (at_time 10 # [at_time 10, at_time 11]).
      fault e (BurnToken ''t0'') = None"
    by (simp add: at_time_def)
  from concurrent_burns_one_winner [OF uniq live exec] uniq live show ?thesis
    by (simp add: ex_store_def numeral_3_eq_3)
qed

end
